theory Spec2Isabelle
  imports Main "HOL-Library.Word"
begin

unbundle bit_operations_syntax

section \<open>Values, errors and outcomes of a binding call\<close>

text \<open>
  The binding \<^verbatim>\<open>src/node-opus.cc\<close> is called from JavaScript. An argument is a JavaScript
  value; the code tells apart a missing argument, a 32-bit integer, an object (which it reads
  as a Buffer with \<^verbatim>\<open>Buffer::Data\<close> and \<^verbatim>\<open>Buffer::Length\<close>) and anything else.
\<close>

type_synonym byte = "8 word"
type_synonym opus_int16 = "16 word"

datatype js_value =
    Undefined
  | Int32 int
  | Buffer "byte list"
  | Other

text \<open>
  What a call can throw: the \<^verbatim>\<open>TypeError\<close> of \<^verbatim>\<open>NanThrowTypeError\<close> with its message, and
  the argument error of the macros of \<^verbatim>\<open>common.h\<close> with the index of the argument.
\<close>

datatype js_error =
    TypeError string
  | ArgumentError nat

text \<open>
  Where the C++ leaves defined behaviour the model stops with a fault: a native primitive
  called on a \<^verbatim>\<open>NULL\<close> handle, an access outside \<^verbatim>\<open>outOpus\<close> or \<^verbatim>\<open>outPcm\<close>, a division by
  zero, an array allocation of impossible size, a signed overflow.
\<close>

datatype fault =
    NullHandle
  | OutOfBounds
  | DivideByZero
  | BadAlloc
  | IntOverflow

datatype 'a outcome =
    Return 'a
  | Throw js_error
  | Abort fault

section \<open>Constants\<close>

definition FRAME_SIZE :: int where
  "FRAME_SIZE = 960"

definition MAX_FRAME_SIZE :: int where
  "MAX_FRAME_SIZE = 6 * 960"

definition MAX_PACKET_SIZE :: int where
  "MAX_PACKET_SIZE = 3 * 1276"

definition BITRATE :: int where
  "BITRATE = 64000"

text \<open>
  The status codes and application profiles of the Opus library, with the values of its
  header \<^verbatim>\<open>opus_defines.h\<close>.
\<close>

definition OPUS_OK :: int where "OPUS_OK = 0"
definition OPUS_BAD_ARG :: int where "OPUS_BAD_ARG = - 1"
definition OPUS_BUFFER_TOO_SMALL :: int where "OPUS_BUFFER_TOO_SMALL = - 2"
definition OPUS_INTERNAL_ERROR :: int where "OPUS_INTERNAL_ERROR = - 3"
definition OPUS_INVALID_PACKET :: int where "OPUS_INVALID_PACKET = - 4"
definition OPUS_UNIMPLEMENTED :: int where "OPUS_UNIMPLEMENTED = - 5"
definition OPUS_INVALID_STATE :: int where "OPUS_INVALID_STATE = - 6"
definition OPUS_ALLOC_FAIL :: int where "OPUS_ALLOC_FAIL = - 7"

definition OPUS_APPLICATION_VOIP :: int where "OPUS_APPLICATION_VOIP = 2048"
definition OPUS_APPLICATION_AUDIO :: int where "OPUS_APPLICATION_AUDIO = 2049"
definition OPUS_APPLICATION_RESTRICTED_LOWDELAY :: int where
  "OPUS_APPLICATION_RESTRICTED_LOWDELAY = 2051"

section \<open>getDecodeError\<close>

definition getDecodeError :: "int \<Rightarrow> string" where
  "getDecodeError decodedSamples =
     (if decodedSamples = OPUS_BAD_ARG then
        ''One or more invalid/out of range arguments''
      else if decodedSamples = OPUS_BUFFER_TOO_SMALL then
        ''The mode struct passed is invalid''
      else if decodedSamples = OPUS_INTERNAL_ERROR then
        ''An internal error was detected''
      else if decodedSamples = OPUS_INVALID_PACKET then
        ''The compressed data passed is corrupted''
      else if decodedSamples = OPUS_UNIMPLEMENTED then
        ''Invalid/unsupported request number.''
      else if decodedSamples = OPUS_INVALID_STATE then
        ''An encoder or decoder structure is invalid or already freed.''
      else if decodedSamples = OPUS_ALLOC_FAIL then
        ''Memory allocation has failed''
      else ''Unknown OPUS error'')"

section \<open>Machine integers and buffers\<close>

text \<open>
  \<^verbatim>\<open>int\<close> and \<^verbatim>\<open>opus_int32\<close> are 32-bit and signed; \<^verbatim>\<open>size_t\<close> is taken as 64-bit and
  unsigned. The conversions are written out: \<open>to_int32\<close> keeps the low 32 bits as a two's
  complement value, \<open>to_size_t\<close> and \<open>to_uint32\<close> reduce modulo the width. A signed
  computation that leaves the range of \<^verbatim>\<open>int\<close> is undefined in C++ and is a fault of the
  model.
\<close>

definition int32_ok :: "int \<Rightarrow> bool" where
  "int32_ok x = (- (2 ^ 31) \<le> x \<and> x < 2 ^ 31)"

definition to_int32 :: "int \<Rightarrow> int" where
  "to_int32 x = (x + 2 ^ 31) mod 2 ^ 32 - 2 ^ 31"

definition to_size_t :: "int \<Rightarrow> nat" where
  "to_size_t x = nat (x mod 2 ^ 64)"

definition to_uint32 :: "int \<Rightarrow> nat" where
  "to_uint32 x = nat (x mod 2 ^ 32)"

text \<open>
  \<^verbatim>\<open>reinterpret_cast\<close> between bytes and 16-bit samples, little-endian as on the hosts the
  addon is built for: two bytes make a sample, a trailing odd byte belongs to none.
\<close>

fun pcm_of_bytes :: "byte list \<Rightarrow> opus_int16 list" where
  "pcm_of_bytes (lo # hi # rest) = (ucast lo OR push_bit 8 (ucast hi)) # pcm_of_bytes rest"
| "pcm_of_bytes _ = []"

definition bytes_of_pcm :: "opus_int16 list \<Rightarrow> byte list" where
  "bytes_of_pcm xs = concat (map (\<lambda>w. [ucast w, ucast (drop_bit 8 w)]) xs)"

text \<open>
  A native primitive that is handed a pointer writes its output from the start of the
  array. Writing more elements than the array holds is an out-of-bounds write.
\<close>

definition write_buf :: "'a list \<Rightarrow> 'a list \<Rightarrow> 'a list option" where
  "write_buf buf written =
     (if length written \<le> length buf
      then Some (written @ drop (length written) buf)
      else None)"

text \<open>
  \<^verbatim>\<open>NanNewBufferHandle(data, size)\<close> of \<^verbatim>\<open>nan.h\<close> takes the size as \<^verbatim>\<open>uint32_t\<close> and
  copies that many bytes from \<^verbatim>\<open>data\<close> into a new Buffer. A size beyond the array reads
  out of bounds; a negative \<^verbatim>\<open>int\<close> converts to a size of at least \<open>2 ^ 31\<close>.
\<close>

definition NanNewBufferHandle :: "byte list \<Rightarrow> int \<Rightarrow> fault + byte list" where
  "NanNewBufferHandle data sz =
     (if to_uint32 sz \<le> length data
      then Inr (take (to_uint32 sz) data)
      else Inl OutOfBounds)"

section \<open>Argument macros\<close>

text \<open>
  The macros \<^verbatim>\<open>REQ_OBJ_ARG\<close>, \<^verbatim>\<open>REQ_INT_ARG\<close> and \<^verbatim>\<open>OPT_INT_ARG\<close> come from \<^verbatim>\<open>common.h\<close>,
  which is not among the sources. Each reads the argument at an index into a local variable
  or leaves the method with an argument error.
\<close>

text \<open>
  Modelled from the spec: \<^verbatim>\<open>REQ_OBJ_ARG\<close> of \<^verbatim>\<open>common.h\<close>. A missing required argument or one
  of the wrong type is reported at the boundary, before the native layer is reached; an
  object argument is read as a Buffer.
\<close>

definition REQ_OBJ_ARG :: "nat \<Rightarrow> js_value list \<Rightarrow> js_error + byte list" where
  "REQ_OBJ_ARG i args =
     (if length args \<le> i then Inl (ArgumentError i)
      else case args ! i of Buffer b \<Rightarrow> Inr b | _ \<Rightarrow> Inl (ArgumentError i))"

text \<open>
  Modelled from the spec: \<^verbatim>\<open>REQ_INT_ARG\<close> of \<^verbatim>\<open>common.h\<close>. A missing required argument or one
  that is no integer is reported at the boundary.
\<close>

definition REQ_INT_ARG :: "nat \<Rightarrow> js_value list \<Rightarrow> js_error + int" where
  "REQ_INT_ARG i args =
     (if length args \<le> i then Inl (ArgumentError i)
      else case args ! i of Int32 v \<Rightarrow> Inr v | _ \<Rightarrow> Inl (ArgumentError i))"

text \<open>
  Modelled from the spec: \<^verbatim>\<open>OPT_INT_ARG\<close> of \<^verbatim>\<open>common.h\<close>. An optional integer argument takes
  its default when it is omitted; one of the wrong type is reported at the boundary.
\<close>

definition OPT_INT_ARG :: "nat \<Rightarrow> int \<Rightarrow> js_value list \<Rightarrow> js_error + int" where
  "OPT_INT_ARG i dflt args =
     (if length args \<le> i then Inr dflt
      else case args ! i of Int32 v \<Rightarrow> Inr v | _ \<Rightarrow> Inl (ArgumentError i))"

section \<open>The native library\<close>

text \<open>
  The Opus library is not part of the binding: it is a parameter of the model, a record of
  the primitives the binding calls. \<open>'enc\<close> and \<open>'dec\<close> are the states behind an
  \<^verbatim>\<open>OpusEncoder*\<close> and an \<^verbatim>\<open>OpusDecoder*\<close>; a creation returns the handle (\<open>None\<close> is
  \<^verbatim>\<open>NULL\<close>) and the error code it stores through its last argument.
  \<^item> \<open>opus_encode st pcm frame_size max_data_bytes\<close> gives the returned status, the bytes
    written from \<^verbatim>\<open>data[0]\<close> on, and the encoder state afterwards;
  \<^item> \<open>opus_decode st data len frame_size decode_fec\<close> gives the returned status, the samples
    written from \<^verbatim>\<open>pcm[0]\<close> on, and the decoder state afterwards;
  \<^item> \<open>opus_set_bitrate st x\<close> is \<^verbatim>\<open>opus_encoder_ctl(st, OPUS_SET_BITRATE(x))\<close>: the status
    and the state afterwards;
  \<^item> \<open>opus_get_bitrate st\<close> is the value \<^verbatim>\<open>opus_encoder_ctl(st, OPUS_GET_BITRATE(&v))\<close>
    stores in \<^verbatim>\<open>v\<close>.
\<close>

record ('enc, 'dec) opus_lib =
  opus_encoder_create :: "int \<Rightarrow> int \<Rightarrow> int \<Rightarrow> 'enc option \<times> int"
  opus_decoder_create :: "int \<Rightarrow> int \<Rightarrow> 'dec option \<times> int"
  opus_encode :: "'enc \<Rightarrow> opus_int16 list \<Rightarrow> int \<Rightarrow> int \<Rightarrow> int \<times> byte list \<times> 'enc"
  opus_decode :: "'dec \<Rightarrow> byte list \<Rightarrow> int \<Rightarrow> int \<Rightarrow> int \<Rightarrow> int \<times> opus_int16 list \<times> 'dec"
  opus_set_bitrate :: "'enc \<Rightarrow> int \<Rightarrow> int \<times> 'enc"
  opus_get_bitrate :: "'enc \<Rightarrow> int"

section \<open>The class OpusEncoder\<close>

record ('enc, 'dec) OpusEncoder =
  encoder :: "'enc option"
  decoder :: "'dec option"
  rate :: int
  channels :: int
  application :: int
  outOpus :: "byte list"
  outPcm :: "opus_int16 list"

definition EnsureEncoder ::
  "('enc, 'dec) opus_lib \<Rightarrow> ('enc, 'dec) OpusEncoder \<Rightarrow> int \<times> ('enc, 'dec) OpusEncoder" where
  "EnsureEncoder L self =
     (if encoder self \<noteq> None then (0, self)
      else case opus_encoder_create L (rate self) (channels self) (application self) of
             (h, error) \<Rightarrow> (error, self\<lparr>encoder := h\<rparr>))"

definition EnsureDecoder ::
  "('enc, 'dec) opus_lib \<Rightarrow> ('enc, 'dec) OpusEncoder \<Rightarrow> int \<times> ('enc, 'dec) OpusEncoder" where
  "EnsureDecoder L self =
     (if decoder self \<noteq> None then (0, self)
      else case opus_decoder_create L (rate self) (channels self) of
             (h, error) \<Rightarrow> (error, self\<lparr>decoder := h\<rparr>))"

text \<open>
  The constructor: both handles \<^verbatim>\<open>NULL\<close>, the configuration stored, \<^verbatim>\<open>outPcm\<close> allocated
  with \<^verbatim>\<open>channels * MAX_FRAME_SIZE\<close> samples. A product outside the range of \<^verbatim>\<open>int\<close> or
  below zero is no array size. The arrays are not initialised by the code; the model fills
  them with zeros.
\<close>

definition OpusEncoder_ctor :: "int \<Rightarrow> int \<Rightarrow> int \<Rightarrow> fault + ('enc, 'dec) OpusEncoder" where
  "OpusEncoder_ctor r c a =
     (if \<not> int32_ok (c * MAX_FRAME_SIZE) then Inl IntOverflow
      else if c * MAX_FRAME_SIZE < 0 then Inl BadAlloc
      else Inr \<lparr>encoder = None, decoder = None, rate = r, channels = c, application = a,
                outOpus = replicate (nat MAX_PACKET_SIZE) 0,
                outPcm = replicate (nat (c * MAX_FRAME_SIZE)) 0\<rparr>)"

definition New :: "bool \<Rightarrow> js_value list \<Rightarrow> ('enc, 'dec) OpusEncoder outcome" where
  "New isConstructCall args =
     (if \<not> isConstructCall then
        Throw (TypeError ''Use the new operator to construct the OpusEncoder.'')
      else case OPT_INT_ARG 0 48000 args of
        Inl e \<Rightarrow> Throw e
      | Inr r \<Rightarrow>
      (case OPT_INT_ARG 1 1 args of
        Inl e \<Rightarrow> Throw e
      | Inr c \<Rightarrow>
      (case OPT_INT_ARG 2 OPUS_APPLICATION_AUDIO args of
        Inl e \<Rightarrow> Throw e
      | Inr a \<Rightarrow>
      (case OpusEncoder_ctor r c a of
        Inl f \<Rightarrow> Abort f
      | Inr self \<Rightarrow> Return self))))"

definition Encode ::
  "('enc, 'dec) opus_lib \<Rightarrow> ('enc, 'dec) OpusEncoder \<Rightarrow> js_value list
     \<Rightarrow> js_value outcome \<times> ('enc, 'dec) OpusEncoder" where
  "Encode L self0 args =
     (let self = snd (EnsureEncoder L self0) in
      (case REQ_OBJ_ARG 0 args of
        Inl e \<Rightarrow> (Throw e, self)
      | Inr pcmBuffer \<Rightarrow>
      (case OPT_INT_ARG 1 MAX_PACKET_SIZE args of
        Inl e \<Rightarrow> (Throw e, self)
      | Inr maxPacketSize \<Rightarrow>
        (if to_size_t (channels self) = 0 then (Abort DivideByZero, self)
         else
          (let frameSize = to_int32 (int (length pcmBuffer div 2 div to_size_t (channels self)))
           in
           (case encoder self of
              None \<Rightarrow> (Abort NullHandle, self)
            | Some h \<Rightarrow>
              (case opus_encode L h (pcm_of_bytes pcmBuffer) frameSize maxPacketSize of
                (compressedLength, written, h') \<Rightarrow>
                  (case write_buf (outOpus self) written of
                     None \<Rightarrow> (Abort OutOfBounds, self\<lparr>encoder := Some h'\<rparr>)
                   | Some out \<Rightarrow>
                      (let self' = self\<lparr>encoder := Some h', outOpus := out\<rparr>
                       in
                       (case NanNewBufferHandle (outOpus self') compressedLength of
                          Inl f \<Rightarrow> (Abort f, self')
                        | Inr actualBuffer \<Rightarrow> (Return (Buffer actualBuffer), self')))))))))))"

definition Decode ::
  "('enc, 'dec) opus_lib \<Rightarrow> ('enc, 'dec) OpusEncoder \<Rightarrow> js_value list
     \<Rightarrow> js_value outcome \<times> ('enc, 'dec) OpusEncoder" where
  "Decode L self0 args =
     (case REQ_OBJ_ARG 0 args of
        Inl e \<Rightarrow> (Throw e, self0)
      | Inr compressedData \<Rightarrow>
        (let compressedDataLength = length compressedData;
             self = snd (EnsureDecoder L self0)
         in
         (case decoder self of
            None \<Rightarrow> (Abort NullHandle, self)
          | Some d \<Rightarrow>
            (case opus_decode L d compressedData (to_int32 (int compressedDataLength))
                    MAX_FRAME_SIZE 0 of
              (decodedSamples, written, d') \<Rightarrow>
                (case write_buf (outPcm self) written of
                   None \<Rightarrow> (Abort OutOfBounds, self\<lparr>decoder := Some d'\<rparr>)
                 | Some out \<Rightarrow>
                    (let self' = self\<lparr>decoder := Some d', outPcm := out\<rparr>
                     in
                     (if decodedSamples < 0 then
                        (Throw (TypeError (getDecodeError decodedSamples)), self')
                      else
                        (let decodedLength = decodedSamples * 2 * channels self'
                         in
                         (if \<not> int32_ok decodedLength then (Abort IntOverflow, self')
                          else
                            (case NanNewBufferHandle (bytes_of_pcm (outPcm self'))
                                    decodedLength of
                               Inl f \<Rightarrow> (Abort f, self')
                             | Inr actualBuffer \<Rightarrow>
                                 (Return (Buffer actualBuffer), self')))))))))))"

definition SetBitrate ::
  "('enc, 'dec) opus_lib \<Rightarrow> ('enc, 'dec) OpusEncoder \<Rightarrow> js_value list
     \<Rightarrow> js_value outcome \<times> ('enc, 'dec) OpusEncoder" where
  "SetBitrate L self0 args =
     (case REQ_INT_ARG 0 args of
        Inl e \<Rightarrow> (Throw e, self0)
      | Inr bitrate \<Rightarrow>
        (let self = snd (EnsureEncoder L self0)
         in
         (case encoder self of
            None \<Rightarrow> (Abort NullHandle, self)
          | Some h \<Rightarrow>
              (Return Undefined,
               self\<lparr>encoder := Some (snd (opus_set_bitrate L h bitrate))\<rparr>))))"

definition GetBitrate ::
  "('enc, 'dec) opus_lib \<Rightarrow> ('enc, 'dec) OpusEncoder \<Rightarrow> js_value list
     \<Rightarrow> js_value outcome \<times> ('enc, 'dec) OpusEncoder" where
  "GetBitrate L self0 args =
     (let self = snd (EnsureEncoder L self0)
      in
      (case encoder self of
         None \<Rightarrow> (Abort NullHandle, self)
       | Some h \<Rightarrow> (Return (Int32 (opus_get_bitrate L h)), self)))"

section \<open>Sequences of calls on one session\<close>

text \<open>
  \<^verbatim>\<open>Init\<close> binds the four methods to the names \<^verbatim>\<open>encode\<close>, \<^verbatim>\<open>decode\<close>, \<^verbatim>\<open>setBitrate\<close> and
  \<^verbatim>\<open>getBitrate\<close> of the prototype. A program calls them one after the other on a session; a
  fault ends the run.
\<close>

datatype method_call =
    encode "js_value list"
  | decode "js_value list"
  | setBitrate "js_value list"
  | getBitrate "js_value list"

fun invoke ::
  "('enc, 'dec) opus_lib \<Rightarrow> ('enc, 'dec) OpusEncoder \<Rightarrow> method_call
     \<Rightarrow> js_value outcome \<times> ('enc, 'dec) OpusEncoder" where
  "invoke L self (encode args) = Encode L self args"
| "invoke L self (decode args) = Decode L self args"
| "invoke L self (setBitrate args) = SetBitrate L self args"
| "invoke L self (getBitrate args) = GetBitrate L self args"

fun is_fault :: "'a outcome \<Rightarrow> bool" where
  "is_fault (Abort f) = True"
| "is_fault _ = False"

fun run ::
  "('enc, 'dec) opus_lib \<Rightarrow> ('enc, 'dec) OpusEncoder \<Rightarrow> method_call list
     \<Rightarrow> js_value outcome list \<times> ('enc, 'dec) OpusEncoder" where
  "run L self [] = ([], self)"
| "run L self (c # cs) =
     (case invoke L self c of
        (r, self') \<Rightarrow>
          if is_fault r then ([r], self')
          else (case run L self' cs of (rs, self'') \<Rightarrow> (r # rs, self'')))"

fun is_setBitrate :: "method_call \<Rightarrow> bool" where
  "is_setBitrate (setBitrate args) = True"
| "is_setBitrate _ = False"

fun is_decode :: "method_call \<Rightarrow> bool" where
  "is_decode (decode args) = True"
| "is_decode _ = False"

text \<open>
  The state of the two output arrays that the constructor sets up and every method keeps:
  \<^verbatim>\<open>outOpus\<close> holds \<^verbatim>\<open>MAX_PACKET_SIZE\<close> bytes and \<^verbatim>\<open>outPcm\<close> holds
  \<^verbatim>\<open>channels * MAX_FRAME_SIZE\<close> samples.
\<close>

definition session_ok :: "('enc, 'dec) OpusEncoder \<Rightarrow> bool" where
  "session_ok self =
     (0 \<le> channels self \<and> int32_ok (channels self * MAX_FRAME_SIZE) \<and>
      length (outOpus self) = nat MAX_PACKET_SIZE \<and>
      length (outPcm self) = nat (channels self * MAX_FRAME_SIZE))"

section \<open>A stand-in for the native library\<close>

text \<open>
  To run the binding on concrete inputs the native library needs a value. \<open>stub_opus\<close> has
  the argument checks that the documentation of the Opus API lists (sampling rates 8, 12,
  16, 24 and 48 kHz; one or two channels; the three application profiles; frame sizes of
  2.5, 5, 10, 20, 40 and 60 ms; a positive output capacity; a bitrate from 500 bit/s to
  300000 bit/s per channel) and no codec: an encoded packet is \<open>payload\<close> bytes of filler
  cut at the capacity it is given, a packet that starts with the byte 255 is corrupted,
  any other packet decodes to 20 ms of silence, and an empty packet is concealed by
  \<^verbatim>\<open>frame_size\<close> samples of silence.
\<close>

datatype stub_enc = StubEnc int int int

datatype stub_dec = StubDec int int

definition stub_rate_ok :: "int \<Rightarrow> bool" where
  "stub_rate_ok Fs = (Fs = 48000 \<or> Fs = 24000 \<or> Fs = 16000 \<or> Fs = 12000 \<or> Fs = 8000)"

definition stub_frame_ok :: "int \<Rightarrow> int \<Rightarrow> bool" where
  "stub_frame_ok Fs frame_size =
     (400 * frame_size = Fs \<or> 200 * frame_size = Fs \<or> 100 * frame_size = Fs \<or>
      50 * frame_size = Fs \<or> 25 * frame_size = Fs \<or> 50 * frame_size = 3 * Fs)"

definition stub_encoder_create :: "int \<Rightarrow> int \<Rightarrow> int \<Rightarrow> stub_enc option \<times> int" where
  "stub_encoder_create Fs ch app =
     (if stub_rate_ok Fs \<and> (ch = 1 \<or> ch = 2) \<and>
         (app = OPUS_APPLICATION_VOIP \<or> app = OPUS_APPLICATION_AUDIO \<or>
          app = OPUS_APPLICATION_RESTRICTED_LOWDELAY)
      then (Some (StubEnc Fs ch (3000 + Fs * ch)), OPUS_OK)
      else (None, OPUS_BAD_ARG))"

definition stub_decoder_create :: "int \<Rightarrow> int \<Rightarrow> stub_dec option \<times> int" where
  "stub_decoder_create Fs ch =
     (if stub_rate_ok Fs \<and> (ch = 1 \<or> ch = 2)
      then (Some (StubDec Fs ch), OPUS_OK)
      else (None, OPUS_BAD_ARG))"

fun stub_encode ::
  "int \<Rightarrow> stub_enc \<Rightarrow> opus_int16 list \<Rightarrow> int \<Rightarrow> int \<Rightarrow> int \<times> byte list \<times> stub_enc" where
  "stub_encode payload (StubEnc Fs ch br) pcm frame_size max_data_bytes =
     (if max_data_bytes \<le> 0 \<or> \<not> stub_frame_ok Fs frame_size
      then (OPUS_BAD_ARG, [], StubEnc Fs ch br)
      else (min max_data_bytes payload, replicate (nat (min max_data_bytes payload)) 1,
            StubEnc Fs ch br))"

fun stub_decode ::
  "stub_dec \<Rightarrow> byte list \<Rightarrow> int \<Rightarrow> int \<Rightarrow> int \<Rightarrow> int \<times> opus_int16 list \<times> stub_dec" where
  "stub_decode (StubDec Fs ch) data len frame_size decode_fec =
     (if len < 0 then (OPUS_BAD_ARG, [], StubDec Fs ch)
      else case data of
        [] \<Rightarrow> (frame_size, replicate (nat (frame_size * ch)) 0, StubDec Fs ch)
      | b # bs \<Rightarrow>
          if b = 255 then (OPUS_INVALID_PACKET, [], StubDec Fs ch)
          else if frame_size < Fs div 50 then (OPUS_BUFFER_TOO_SMALL, [], StubDec Fs ch)
          else (Fs div 50, replicate (nat (Fs div 50 * ch)) 0, StubDec Fs ch))"

fun stub_set_bitrate :: "stub_enc \<Rightarrow> int \<Rightarrow> int \<times> stub_enc" where
  "stub_set_bitrate (StubEnc Fs ch br) x =
     (if x \<le> 0 then (OPUS_BAD_ARG, StubEnc Fs ch br)
      else if x \<le> 500 then (OPUS_OK, StubEnc Fs ch 500)
      else if x > 300000 * ch then (OPUS_OK, StubEnc Fs ch (300000 * ch))
      else (OPUS_OK, StubEnc Fs ch x))"

fun stub_get_bitrate :: "stub_enc \<Rightarrow> int" where
  "stub_get_bitrate (StubEnc Fs ch br) = br"

definition stub_opus :: "int \<Rightarrow> (stub_enc, stub_dec) opus_lib" where
  "stub_opus payload =
     \<lparr>opus_encoder_create = stub_encoder_create,
      opus_decoder_create = stub_decoder_create,
      opus_encode = stub_encode payload,
      opus_decode = stub_decode,
      opus_set_bitrate = stub_set_bitrate,
      opus_get_bitrate = stub_get_bitrate\<rparr>"

text \<open>A session as \<^verbatim>\<open>new OpusEncoder(rate, channels, application)\<close> leaves it.\<close>

definition fresh :: "int \<Rightarrow> int \<Rightarrow> int \<Rightarrow> (stub_enc, stub_dec) OpusEncoder" where
  "fresh r c a =
     \<lparr>encoder = None, decoder = None, rate = r, channels = c, application = a,
      outOpus = replicate (nat MAX_PACKET_SIZE) 0,
      outPcm = replicate (nat (c * MAX_FRAME_SIZE)) 0\<rparr>"

text \<open>
  The encoder states that encoding reaches: \<open>encodes_to L h h'\<close> holds when \<open>h'\<close> is \<open>h\<close>
  after any number of calls of \<^verbatim>\<open>opus_encode\<close>, whatever their arguments. A session's encoder
  comes from \<open>h0\<close> when the session has an encoder handle and its state is reached from \<open>h0\<close>.
\<close>

inductive encodes_to :: "('enc, 'dec) opus_lib \<Rightarrow> 'enc \<Rightarrow> 'enc \<Rightarrow> bool"
  for L :: "('enc, 'dec) opus_lib" and h :: 'enc where
  here: "encodes_to L h h"
| step: "encodes_to L h h' \<Longrightarrow> encodes_to L h (snd (snd (opus_encode L h' pcm fs m)))"

definition encoder_from :: "('enc, 'dec) opus_lib \<Rightarrow> 'enc \<Rightarrow> ('enc, 'dec) OpusEncoder \<Rightarrow> bool" where
  "encoder_from L h0 self = (case encoder self of None \<Rightarrow> False | Some h \<Rightarrow> encodes_to L h0 h)"

text \<open>
  A native encoder that uses the whole capacity it is given, as an encoder at a constant
  bitrate does when it pads its packet: it writes \<^verbatim>\<open>max_data_bytes\<close> bytes and returns that
  count.
\<close>

definition fill_encode :: "'enc \<Rightarrow> opus_int16 list \<Rightarrow> int \<Rightarrow> int \<Rightarrow> int \<times> byte list \<times> 'enc" where
  "fill_encode st pcm frame_size max_data_bytes =
     (max_data_bytes, replicate (nat max_data_bytes) 0, st)"

section \<open>Basic facts\<close>

subsection \<open>Lazy creation, integers and buffers\<close>

lemmas opus_consts = OPUS_OK_def OPUS_BAD_ARG_def OPUS_BUFFER_TOO_SMALL_def OPUS_INTERNAL_ERROR_def
  OPUS_INVALID_PACKET_def OPUS_UNIMPLEMENTED_def OPUS_INVALID_STATE_def OPUS_ALLOC_FAIL_def
  OPUS_APPLICATION_VOIP_def OPUS_APPLICATION_AUDIO_def OPUS_APPLICATION_RESTRICTED_LOWDELAY_def

lemma EnsureEncoder_fields:
  "decoder (snd (EnsureEncoder L self)) = decoder self"
  "rate (snd (EnsureEncoder L self)) = rate self"
  "channels (snd (EnsureEncoder L self)) = channels self"
  "application (snd (EnsureEncoder L self)) = application self"
  "outOpus (snd (EnsureEncoder L self)) = outOpus self"
  "outPcm (snd (EnsureEncoder L self)) = outPcm self"
  by (simp_all add: EnsureEncoder_def split: prod.splits)

lemma EnsureDecoder_fields:
  "encoder (snd (EnsureDecoder L self)) = encoder self"
  "rate (snd (EnsureDecoder L self)) = rate self"
  "channels (snd (EnsureDecoder L self)) = channels self"
  "application (snd (EnsureDecoder L self)) = application self"
  "outOpus (snd (EnsureDecoder L self)) = outOpus self"
  "outPcm (snd (EnsureDecoder L self)) = outPcm self"
  by (simp_all add: EnsureDecoder_def split: prod.splits)

lemma EnsureEncoder_present:
  "encoder self = Some h \<Longrightarrow> EnsureEncoder L self = (0, self)"
  by (simp add: EnsureEncoder_def)

lemma EnsureDecoder_present:
  "decoder self = Some d \<Longrightarrow> EnsureDecoder L self = (0, self)"
  by (simp add: EnsureDecoder_def)

lemma EnsureEncoder_available:
  assumes "encoder (snd (EnsureEncoder L self)) = Some h"
  shows "snd (EnsureEncoder L self) = self\<lparr>encoder := Some h\<rparr>"
  using assms by (auto simp add: EnsureEncoder_def split: prod.splits if_splits)

lemma EnsureEncoder_absent:
  "encoder self = None \<Longrightarrow>
   encoder (snd (EnsureEncoder L self)) =
     fst (opus_encoder_create L (rate self) (channels self) (application self))"
  by (simp add: EnsureEncoder_def split: prod.splits)

lemma EnsureDecoder_absent:
  "decoder self = None \<Longrightarrow>
   decoder (snd (EnsureDecoder L self)) =
     fst (opus_decoder_create L (rate self) (channels self))"
  by (simp add: EnsureDecoder_def split: prod.splits)

lemma length_bytes_of_pcm: "length (bytes_of_pcm xs) = 2 * length xs"
  by (induction xs) (simp_all add: bytes_of_pcm_def)

lemma length_write_buf:
  "write_buf buf written = Some out \<Longrightarrow> length out = length buf"
  by (auto simp add: write_buf_def split: if_splits)

lemma to_uint32_nonneg: "0 \<le> x \<Longrightarrow> x < 2 ^ 32 \<Longrightarrow> to_uint32 x = nat x"
  by (simp add: to_uint32_def)

lemma to_uint32_negative:
  assumes "- (2 ^ 31) \<le> x" and "x < 0"
  shows "to_uint32 x = nat (x + 2 ^ 32)"
proof -
  have "x mod 2 ^ 32 = (x + 2 ^ 32) mod 2 ^ 32" by simp
  also have "\<dots> = x + 2 ^ 32"
    using assms by (intro mod_pos_pos_trivial) simp_all
  finally show ?thesis by (simp add: to_uint32_def)
qed

lemma NanNewBufferHandle_length:
  "NanNewBufferHandle data sz = Inr b \<Longrightarrow> length b = to_uint32 sz"
  by (auto simp add: NanNewBufferHandle_def split: if_splits)

subsection \<open>Decode\<close>

lemma Decode_Return_D:
  assumes ok: "session_ok self"
    and ret: "Decode L self args = (Return v, self')"
  shows "\<exists>data d n written d' b.
           REQ_OBJ_ARG 0 args = Inr data \<and>
           decoder (snd (EnsureDecoder L self)) = Some d \<and>
           opus_decode L d data (to_int32 (int (length data))) MAX_FRAME_SIZE 0 = (n, written, d') \<and>
           0 \<le> n \<and> v = Buffer b \<and> int (length b) = n * 2 * channels self"
proof -
  from ret obtain data where a: "REQ_OBJ_ARG 0 args = Inr data"
    by (cases "REQ_OBJ_ARG 0 args") (auto simp add: Decode_def)
  from ret a obtain d where d: "decoder (snd (EnsureDecoder L self)) = Some d"
    by (cases "decoder (snd (EnsureDecoder L self))") (auto simp add: Decode_def Let_def)
  obtain n written d' where
    nat: "opus_decode L d data (to_int32 (int (length data))) MAX_FRAME_SIZE 0 = (n, written, d')"
    by (cases "opus_decode L d data (to_int32 (int (length data))) MAX_FRAME_SIZE 0") auto
  from ret a d nat obtain out where w: "write_buf (outPcm self) written = Some out"
    by (cases "write_buf (outPcm self) written")
       (auto simp add: Decode_def Let_def EnsureDecoder_fields)
  from ret a d nat w have n0: "0 \<le> n"
    by (auto simp add: Decode_def Let_def EnsureDecoder_fields split: if_splits)
  from ret a d nat w n0 have i32: "int32_ok (n * 2 * channels self)"
    by (auto simp add: Decode_def Let_def EnsureDecoder_fields split: if_splits)
  from ret a d nat w n0 i32 obtain b where
    nb: "NanNewBufferHandle (bytes_of_pcm out) (n * 2 * channels self) = Inr b" and v: "v = Buffer b"
    by (cases "NanNewBufferHandle (bytes_of_pcm out) (n * 2 * channels self)")
       (auto simp add: Decode_def Let_def EnsureDecoder_fields)
  from ok have c0: "0 \<le> channels self" by (simp add: session_ok_def)
  with n0 have nn: "0 \<le> n * 2 * channels self" by simp
  from i32 have "n * 2 * channels self < 2 ^ 32" by (simp add: int32_ok_def)
  with nn NanNewBufferHandle_length [OF nb] have "int (length b) = n * 2 * channels self"
    by (simp add: to_uint32_nonneg)
  with a d nat n0 v show ?thesis by blast
qed

lemma Decode_returns:
  assumes ok: "session_ok self"
    and a: "REQ_OBJ_ARG 0 args = Inr data"
    and d: "decoder (snd (EnsureDecoder L self)) = Some d"
    and nat: "opus_decode L d data (to_int32 (int (length data))) MAX_FRAME_SIZE 0 = (n, written, d')"
    and fits: "length written \<le> length (outPcm self)"
    and n0: "0 \<le> n" and n1: "n \<le> MAX_FRAME_SIZE"
    and i32: "int32_ok (n * 2 * channels self)"
  shows "\<exists>b. fst (Decode L self args) = Return (Buffer b) \<and> int (length b) = n * 2 * channels self"
proof -
  let ?out = "written @ drop (length written) (outPcm self)"
  from fits have w: "write_buf (outPcm self) written = Some ?out"
    by (simp add: write_buf_def)
  from ok have c0: "0 \<le> channels self"
    and cm: "int32_ok (channels self * MAX_FRAME_SIZE)"
    and len: "length (outPcm self) = nat (channels self * MAX_FRAME_SIZE)"
    by (simp_all add: session_ok_def)
  have le: "n * channels self \<le> MAX_FRAME_SIZE * channels self"
    using n1 c0 by (rule mult_right_mono)
  have nn: "0 \<le> n * 2 * channels self" using n0 c0 by simp
  have lb: "length (bytes_of_pcm ?out) = 2 * nat (channels self * MAX_FRAME_SIZE)"
    using fits len by (simp add: length_bytes_of_pcm)
  have u: "to_uint32 (n * 2 * channels self) = nat (n * 2 * channels self)"
    using nn i32 by (intro to_uint32_nonneg) (simp_all add: int32_ok_def)
  have "nat (n * 2 * channels self) \<le> 2 * nat (channels self * MAX_FRAME_SIZE)"
    using le nn c0 by (simp add: MAX_FRAME_SIZE_def nat_le_iff)
  with lb u have nb: "NanNewBufferHandle (bytes_of_pcm ?out) (n * 2 * channels self) =
      Inr (take (nat (n * 2 * channels self)) (bytes_of_pcm ?out))"
    by (simp add: NanNewBufferHandle_def)
  have "fst (Decode L self args) = Return (Buffer (take (nat (n * 2 * channels self)) (bytes_of_pcm ?out)))"
    using a d nat w n0 i32 nb
    by (simp add: Decode_def Let_def EnsureDecoder_fields)
  moreover have "int (length (take (nat (n * 2 * channels self)) (bytes_of_pcm ?out))) = n * 2 * channels self"
    using NanNewBufferHandle_length [OF nb] u nn by simp
  ultimately show ?thesis by blast
qed

lemma Decode_fec_only:
  assumes "\<And>d data len. g d data len MAX_FRAME_SIZE 0 = opus_decode L d data len MAX_FRAME_SIZE 0"
  shows "Decode (L\<lparr>opus_decode := g\<rparr>) self args = Decode L self args"
proof -
  have "EnsureDecoder (L\<lparr>opus_decode := g\<rparr>) self = EnsureDecoder L self"
    by (simp add: EnsureDecoder_def)
  with assms show ?thesis
    by (simp add: Decode_def Let_def split: sum.splits option.splits)
qed

lemma Decode_negative:
  assumes "REQ_OBJ_ARG 0 args = Inr data"
    and "decoder (snd (EnsureDecoder L self)) = Some d"
    and "opus_decode L d data (to_int32 (int (length data))) MAX_FRAME_SIZE 0 = (n, written, d')"
    and "length written \<le> length (outPcm self)"
    and "n < 0"
  shows "fst (Decode L self args) = Throw (TypeError (getDecodeError n))"
  using assms by (simp add: Decode_def Let_def write_buf_def EnsureDecoder_fields)

subsection \<open>Encode\<close>

lemma to_size_t_channels:
  assumes "session_ok self"
  shows "to_size_t (channels self) = nat (channels self)"
proof -
  from assms have "0 \<le> channels self" and "channels self * 5760 < 2 ^ 31"
    by (simp_all add: session_ok_def int32_ok_def MAX_FRAME_SIZE_def)
  then have "0 \<le> channels self" and "channels self < 2 ^ 64" by simp_all
  then show ?thesis by (simp add: to_size_t_def)
qed

lemma Encode_no_throw:
  "fst (Encode L self (Buffer pcm # Int32 m # rest)) \<noteq> Throw e"
  by (simp add: Encode_def Let_def REQ_OBJ_ARG_def OPT_INT_ARG_def
      split: option.splits prod.splits sum.splits)

lemma Encode_overrun:
  assumes ok: "session_ok self"
    and c: "channels self \<noteq> 0"
    and h: "encoder (snd (EnsureEncoder L self)) = Some h"
    and nat: "opus_encode L h (pcm_of_bytes pcm)
               (to_int32 (int (length pcm div 2 div to_size_t (channels self)))) m = (n, written, h')"
    and over: "nat MAX_PACKET_SIZE < length written"
  shows "fst (Encode L self (Buffer pcm # Int32 m # rest)) = Abort OutOfBounds"
proof -
  from ok have len: "length (outOpus self) = nat MAX_PACKET_SIZE"
    by (simp add: session_ok_def)
  from ok c have cz: "to_size_t (channels self) \<noteq> 0"
    by (simp add: to_size_t_channels session_ok_def)
  from over len have w: "write_buf (outOpus self) written = None"
    by (simp add: write_buf_def)
  show ?thesis
    using cz h nat w
    by (simp add: Encode_def Let_def EnsureEncoder_fields REQ_OBJ_ARG_def OPT_INT_ARG_def)
qed

lemma Encode_negative_status:
  assumes ok: "session_ok self"
    and c: "channels self \<noteq> 0"
    and h: "encoder (snd (EnsureEncoder L self)) = Some h"
    and nat: "opus_encode L h (pcm_of_bytes pcm)
               (to_int32 (int (length pcm div 2 div to_size_t (channels self)))) m = (n, written, h')"
    and fits: "length written \<le> nat MAX_PACKET_SIZE"
    and n0: "n < 0" and n1: "- (2 ^ 31) \<le> n"
  shows "fst (Encode L self (Buffer pcm # Int32 m # rest)) = Abort OutOfBounds"
proof -
  let ?out = "written @ drop (length written) (outOpus self)"
  from ok have len: "length (outOpus self) = nat MAX_PACKET_SIZE"
    by (simp add: session_ok_def)
  from ok c have cz: "to_size_t (channels self) \<noteq> 0"
    by (simp add: to_size_t_channels session_ok_def)
  from fits len have w: "write_buf (outOpus self) written = Some ?out"
    by (simp add: write_buf_def)
  have lo: "length ?out = nat MAX_PACKET_SIZE" using fits len by simp
  have "to_uint32 n = nat (n + 2 ^ 32)" using n1 n0 by (rule to_uint32_negative)
  with n1 have "nat MAX_PACKET_SIZE < to_uint32 n"
    by (simp add: MAX_PACKET_SIZE_def)
  with lo have nb: "NanNewBufferHandle ?out n = Inl OutOfBounds"
    by (simp add: NanNewBufferHandle_def)
  show ?thesis
    using cz h nat w nb
    by (simp add: Encode_def Let_def EnsureEncoder_fields REQ_OBJ_ARG_def OPT_INT_ARG_def)
qed

lemma Encode_creation_failed:
  assumes absent: "encoder self = None"
    and failed: "fst (opus_encoder_create L (rate self) (channels self) (application self)) = None"
    and c: "to_size_t (channels self) \<noteq> 0"
  shows "Encode L self (Buffer pcm # Int32 m # rest) = (Abort NullHandle, self)"
proof -
  from absent failed have e: "snd (EnsureEncoder L self) = self"
    by (cases "opus_encoder_create L (rate self) (channels self) (application self)")
       (simp add: EnsureEncoder_def)
  with absent c show ?thesis
    by (simp add: Encode_def Let_def REQ_OBJ_ARG_def OPT_INT_ARG_def)
qed

lemma Encode_within:
  assumes ok: "session_ok self"
    and c: "channels self \<noteq> 0"
    and h: "encoder (snd (EnsureEncoder L self)) = Some h"
    and nat: "opus_encode L h (pcm_of_bytes pcm)
               (to_int32 (int (length pcm div 2 div to_size_t (channels self)))) m = (n, written, h')"
    and fits: "length written \<le> nat MAX_PACKET_SIZE"
    and n0: "0 \<le> n" and n1: "n \<le> MAX_PACKET_SIZE"
  shows "Encode L self (Buffer pcm # Int32 m # rest) =
           (Return (Buffer (take (nat n) (written @ drop (length written) (outOpus self)))),
            self\<lparr>encoder := Some h', outOpus := written @ drop (length written) (outOpus self)\<rparr>)"
proof -
  let ?out = "written @ drop (length written) (outOpus self)"
  from ok have len: "length (outOpus self) = nat MAX_PACKET_SIZE"
    by (simp add: session_ok_def)
  from ok c have cz: "to_size_t (channels self) \<noteq> 0"
    by (simp add: to_size_t_channels session_ok_def)
  from fits len have w: "write_buf (outOpus self) written = Some ?out"
    by (simp add: write_buf_def)
  have lo: "length ?out = nat MAX_PACKET_SIZE" using fits len by simp
  have u: "to_uint32 n = nat n"
    using n0 n1 by (intro to_uint32_nonneg) (simp_all add: MAX_PACKET_SIZE_def)
  have nb: "NanNewBufferHandle ?out n = Inr (take (nat n) ?out)"
    using u lo n1 n0 by (simp add: NanNewBufferHandle_def nat_le_iff)
  have e: "snd (EnsureEncoder L self) = self\<lparr>encoder := Some h\<rparr>"
    using h by (rule EnsureEncoder_available)
  show ?thesis
    using cz nat w nb
    by (simp add: Encode_def Let_def e REQ_OBJ_ARG_def OPT_INT_ARG_def)
qed

lemma EnsureEncoder_opus_encode_update:
  "EnsureEncoder (L\<lparr>opus_encode := g\<rparr>) self = EnsureEncoder L self"
  by (simp add: EnsureEncoder_def)

lemma Encode_fill_over:
  assumes ok: "session_ok self"
    and c: "channels self \<noteq> 0"
    and h: "encoder (snd (EnsureEncoder L self)) = Some h"
    and m: "MAX_PACKET_SIZE < m"
  shows "fst (Encode (L\<lparr>opus_encode := fill_encode\<rparr>) self (Buffer pcm # Int32 m # rest)) =
           Abort OutOfBounds"
proof (rule Encode_overrun [OF ok c])
  show "encoder (snd (EnsureEncoder (L\<lparr>opus_encode := fill_encode\<rparr>) self)) = Some h"
    using h by (simp add: EnsureEncoder_opus_encode_update)
  show "opus_encode (L\<lparr>opus_encode := fill_encode\<rparr>) h (pcm_of_bytes pcm)
      (to_int32 (int (length pcm div 2 div to_size_t (channels self)))) m =
      (m, replicate (nat m) 0, h)"
    by (simp add: fill_encode_def)
  show "nat MAX_PACKET_SIZE < length (replicate (nat m) (0 :: byte))"
    using m by (simp add: MAX_PACKET_SIZE_def)
qed

lemma Encode_fill_within:
  assumes ok: "session_ok self"
    and c: "channels self \<noteq> 0"
    and h: "encoder (snd (EnsureEncoder L self)) = Some h"
    and m0: "0 \<le> m" and m1: "m \<le> MAX_PACKET_SIZE"
  shows "fst (Encode (L\<lparr>opus_encode := fill_encode\<rparr>) self (Buffer pcm # Int32 m # rest)) =
           Return (Buffer (replicate (nat m) 0))"
proof -
  have h': "encoder (snd (EnsureEncoder (L\<lparr>opus_encode := fill_encode\<rparr>) self)) = Some h"
    using h by (simp add: EnsureEncoder_opus_encode_update)
  have nat: "opus_encode (L\<lparr>opus_encode := fill_encode\<rparr>) h (pcm_of_bytes pcm)
      (to_int32 (int (length pcm div 2 div to_size_t (channels self)))) m =
      (m, replicate (nat m) 0, h)"
    by (simp add: fill_encode_def)
  have fits: "length (replicate (nat m) (0 :: byte)) \<le> nat MAX_PACKET_SIZE"
    using m1 by (simp add: nat_le_iff)
  from Encode_within [OF ok c h' nat fits m0 m1, of rest] show ?thesis
    by simp
qed

lemma Encode_capacity_only:
  assumes "\<And>h pcm fs. g h pcm fs m = opus_encode L h pcm fs m"
  shows "Encode (L\<lparr>opus_encode := g\<rparr>) self (Buffer pcm # Int32 m # rest) =
         Encode L self (Buffer pcm # Int32 m # rest)"
proof -
  have "EnsureEncoder (L\<lparr>opus_encode := g\<rparr>) self = EnsureEncoder L self"
    by (simp add: EnsureEncoder_def)
  with assms show ?thesis
    by (simp add: Encode_def Let_def REQ_OBJ_ARG_def OPT_INT_ARG_def split: sum.splits option.splits)
qed

subsection \<open>The handles over a sequence of calls\<close>

lemma Encode_encoder_mono: "encoder self \<noteq> None \<Longrightarrow> encoder (snd (Encode L self args)) \<noteq> None"
  by (auto simp add: Encode_def Let_def EnsureEncoder_def split: sum.splits option.splits prod.splits)

lemma Encode_decoder_same: "decoder (snd (Encode L self args)) = decoder self"
  by (simp add: Encode_def Let_def EnsureEncoder_fields split: sum.splits option.splits prod.splits)

lemma Decode_decoder_mono: "decoder self \<noteq> None \<Longrightarrow> decoder (snd (Decode L self args)) \<noteq> None"
  by (auto simp add: Decode_def Let_def EnsureDecoder_def split: sum.splits option.splits prod.splits)

lemma Decode_encoder_same: "encoder (snd (Decode L self args)) = encoder self"
  by (simp add: Decode_def Let_def EnsureDecoder_fields split: sum.splits option.splits prod.splits)

lemma SetBitrate_encoder_mono: "encoder self \<noteq> None \<Longrightarrow> encoder (snd (SetBitrate L self args)) \<noteq> None"
  by (auto simp add: SetBitrate_def Let_def EnsureEncoder_def split: sum.splits option.splits prod.splits)

lemma SetBitrate_decoder_same: "decoder (snd (SetBitrate L self args)) = decoder self"
  by (simp add: SetBitrate_def Let_def EnsureEncoder_fields split: sum.splits option.splits prod.splits)

lemma GetBitrate_encoder_mono: "encoder self \<noteq> None \<Longrightarrow> encoder (snd (GetBitrate L self args)) \<noteq> None"
  by (auto simp add: GetBitrate_def Let_def EnsureEncoder_def split: sum.splits option.splits prod.splits)

lemma GetBitrate_decoder_same: "decoder (snd (GetBitrate L self args)) = decoder self"
  by (simp add: GetBitrate_def Let_def EnsureEncoder_fields split: sum.splits option.splits prod.splits)

lemma invoke_encoder_mono: "encoder self \<noteq> None \<Longrightarrow> encoder (snd (invoke L self c)) \<noteq> None"
  by (cases c) (simp_all add: Encode_encoder_mono SetBitrate_encoder_mono GetBitrate_encoder_mono Decode_encoder_same)

lemma invoke_decoder_mono: "decoder self \<noteq> None \<Longrightarrow> decoder (snd (invoke L self c)) \<noteq> None"
  by (cases c) (simp_all add: Decode_decoder_mono Encode_decoder_same SetBitrate_decoder_same GetBitrate_decoder_same)

lemma snd_run_Cons:
  "snd (run L self (c # cs)) =
     (if is_fault (fst (invoke L self c)) then snd (invoke L self c)
      else snd (run L (snd (invoke L self c)) cs))"
  by (cases "invoke L self c"; cases "run L (snd (invoke L self c)) cs") simp

lemma run_encoder_mono: "encoder self \<noteq> None \<Longrightarrow> encoder (snd (run L self cs)) \<noteq> None"
proof (induction cs arbitrary: self)
  case Nil
  then show ?case by simp
next
  case (Cons c cs)
  from Cons.prems have "encoder (snd (invoke L self c)) \<noteq> None"
    by (rule invoke_encoder_mono)
  then have "encoder (snd (run L (snd (invoke L self c)) cs)) \<noteq> None"
    by (rule Cons.IH)
  with \<open>encoder (snd (invoke L self c)) \<noteq> None\<close> show ?case
    by (simp only: snd_run_Cons split: if_splits) simp
qed

lemma run_decoder_mono: "decoder self \<noteq> None \<Longrightarrow> decoder (snd (run L self cs)) \<noteq> None"
proof (induction cs arbitrary: self)
  case Nil
  then show ?case by simp
next
  case (Cons c cs)
  from Cons.prems have "decoder (snd (invoke L self c)) \<noteq> None"
    by (rule invoke_decoder_mono)
  then have "decoder (snd (run L (snd (invoke L self c)) cs)) \<noteq> None"
    by (rule Cons.IH)
  with \<open>decoder (snd (invoke L self c)) \<noteq> None\<close> show ?case
    by (simp only: snd_run_Cons split: if_splits) simp
qed

lemma invoke_decoder_same: "\<not> is_decode c \<Longrightarrow> decoder (snd (invoke L self c)) = decoder self"
  by (cases c) (simp_all add: Encode_decoder_same SetBitrate_decoder_same GetBitrate_decoder_same)

lemma invoke_encoder_same: "is_decode c \<Longrightarrow> encoder (snd (invoke L self c)) = encoder self"
  by (cases c) (simp_all add: Decode_encoder_same)

lemma New_handles_absent:
  "New isConstructCall args = Return self \<Longrightarrow> encoder self = None \<and> decoder self = None"
  by (auto simp add: New_def OpusEncoder_ctor_def split: if_splits sum.splits)

lemma New_session_ok:
  "New isConstructCall args = Return self \<Longrightarrow> session_ok self"
  by (auto simp add: New_def OpusEncoder_ctor_def session_ok_def MAX_FRAME_SIZE_def
      split: if_splits sum.splits)

lemma Encode_materialises:
  assumes "encoder self = None"
    and "fst (opus_encoder_create L (rate self) (channels self) (application self)) = Some h"
  shows "encoder (snd (Encode L self args)) \<noteq> None"
proof -
  from assms have "encoder (snd (EnsureEncoder L self)) = Some h"
    by (simp add: EnsureEncoder_absent)
  then show ?thesis
    by (auto simp add: Encode_def Let_def split: sum.splits option.splits prod.splits)
qed

lemma GetBitrate_materialises:
  assumes "encoder self = None"
    and "fst (opus_encoder_create L (rate self) (channels self) (application self)) = Some h"
  shows "encoder (snd (GetBitrate L self args)) \<noteq> None"
proof -
  from assms have "encoder (snd (EnsureEncoder L self)) = Some h"
    by (simp add: EnsureEncoder_absent)
  then show ?thesis
    by (auto simp add: GetBitrate_def Let_def split: sum.splits option.splits prod.splits)
qed

lemma SetBitrate_materialises:
  assumes "encoder self = None"
    and "fst (opus_encoder_create L (rate self) (channels self) (application self)) = Some h"
  shows "encoder (snd (SetBitrate L self (Int32 b # rest))) \<noteq> None"
proof -
  from assms have "encoder (snd (EnsureEncoder L self)) = Some h"
    by (simp add: EnsureEncoder_absent)
  then show ?thesis
    by (auto simp add: SetBitrate_def REQ_INT_ARG_def Let_def split: sum.splits option.splits prod.splits)
qed

lemma Decode_materialises:
  assumes "decoder self = None"
    and "fst (opus_decoder_create L (rate self) (channels self)) = Some d"
  shows "decoder (snd (Decode L self (Buffer data # rest))) \<noteq> None"
proof -
  from assms have "decoder (snd (EnsureDecoder L self)) = Some d"
    by (simp add: EnsureDecoder_absent)
  then show ?thesis
    by (auto simp add: Decode_def REQ_OBJ_ARG_def Let_def split: sum.splits option.splits prod.splits)
qed

subsection \<open>The output arrays keep their sizes\<close>

lemma session_ok_EnsureEncoder: "session_ok (snd (EnsureEncoder L self)) = session_ok self"
  by (simp add: session_ok_def EnsureEncoder_fields)

lemma session_ok_EnsureDecoder: "session_ok (snd (EnsureDecoder L self)) = session_ok self"
  by (simp add: session_ok_def EnsureDecoder_fields)

lemma session_ok_Encode: "session_ok self \<Longrightarrow> session_ok (snd (Encode L self args))"
  by (auto simp add: Encode_def Let_def session_ok_def EnsureEncoder_fields
      dest: length_write_buf split: sum.splits option.splits prod.splits)

lemma session_ok_Decode: "session_ok self \<Longrightarrow> session_ok (snd (Decode L self args))"
  by (auto simp add: Decode_def Let_def session_ok_def EnsureDecoder_fields
      dest: length_write_buf split: sum.splits option.splits prod.splits)

lemma session_ok_SetBitrate: "session_ok self \<Longrightarrow> session_ok (snd (SetBitrate L self args))"
  by (auto simp add: SetBitrate_def Let_def session_ok_def EnsureEncoder_fields
      split: sum.splits option.splits prod.splits)

lemma session_ok_GetBitrate: "session_ok self \<Longrightarrow> session_ok (snd (GetBitrate L self args))"
  by (auto simp add: GetBitrate_def Let_def session_ok_def EnsureEncoder_fields
      split: sum.splits option.splits prod.splits)

lemma session_ok_invoke: "session_ok self \<Longrightarrow> session_ok (snd (invoke L self c))"
  by (cases c) (simp_all add: session_ok_Encode session_ok_Decode session_ok_SetBitrate session_ok_GetBitrate)

subsection \<open>The encoder state over a sequence of calls\<close>

lemma Encode_encoder_after:
  assumes h: "encoder self = Some h"
  shows "encoder (snd (Encode L self args)) = Some h \<or>
         (\<exists>pcm fs m. encoder (snd (Encode L self args)) = Some (snd (snd (opus_encode L h pcm fs m))))"
proof -
  have e: "snd (EnsureEncoder L self) = self"
    using h by (simp add: EnsureEncoder_present)
  show ?thesis
  proof (cases "REQ_OBJ_ARG 0 args")
    case (Inl err)
    then show ?thesis using h by (simp add: Encode_def Let_def e)
  next
    case (Inr pcm)
    show ?thesis
    proof (cases "OPT_INT_ARG 1 MAX_PACKET_SIZE args")
      case (Inl err)
      with Inr show ?thesis using h by (simp add: Encode_def Let_def e)
    next
      case m: (Inr m)
      let ?fs = "to_int32 (int (length pcm div 2 div to_size_t (channels self)))"
      obtain n written h' where
        r: "opus_encode L h (pcm_of_bytes pcm) ?fs m = (n, written, h')"
        by (cases "opus_encode L h (pcm_of_bytes pcm) ?fs m") auto
      then have h': "h' = snd (snd (opus_encode L h (pcm_of_bytes pcm) ?fs m))"
        by simp
      have "encoder (snd (Encode L self args)) = Some h \<or>
            encoder (snd (Encode L self args)) = Some h'"
        using Inr m h r
        by (simp add: Encode_def Let_def e split: option.splits sum.splits)
      with h' show ?thesis by blast
    qed
  qed
qed

lemma encoder_from_Encode:
  assumes "encoder_from L h0 self"
  shows "encoder_from L h0 (snd (Encode L self args))"
proof -
  from assms obtain h where h: "encoder self = Some h" and r: "encodes_to L h0 h"
    by (auto simp add: encoder_from_def split: option.splits)
  from Encode_encoder_after [OF h, of L args] r show ?thesis
    by (auto simp add: encoder_from_def intro: encodes_to.step)
qed

lemma encoder_from_invoke:
  assumes c: "\<not> is_setBitrate c"
    and b: "encoder_from L h0 self"
  shows "encoder_from L h0 (snd (invoke L self c))"
proof (cases c)
  case (encode args)
  from b have "encoder_from L h0 (snd (Encode L self args))"
    by (rule encoder_from_Encode)
  then show ?thesis by (simp add: encode)
next
  case (decode args)
  have "encoder (snd (Decode L self args)) = encoder self" by (rule Decode_encoder_same)
  with b show ?thesis by (simp add: decode encoder_from_def)
next
  case (setBitrate args)
  with c show ?thesis by simp
next
  case (getBitrate args)
  from b obtain h where h: "encoder self = Some h"
    by (auto simp add: encoder_from_def split: option.splits)
  then have "snd (EnsureEncoder L self) = self" by (simp add: EnsureEncoder_present)
  with b h show ?thesis
    by (simp add: getBitrate GetBitrate_def Let_def encoder_from_def)
qed

lemma encoder_from_run:
  "\<forall>c\<in>set cs. \<not> is_setBitrate c \<Longrightarrow> encoder_from L h0 self \<Longrightarrow>
   encoder_from L h0 (snd (run L self cs))"
proof (induction cs arbitrary: self)
  case Nil
  then show ?case by simp
next
  case (Cons c cs)
  from Cons.prems have "encoder_from L h0 (snd (invoke L self c))"
    by (intro encoder_from_invoke) simp_all
  moreover from this Cons.prems have "encoder_from L h0 (snd (run L (snd (invoke L self c)) cs))"
    by (intro Cons.IH) simp_all
  ultimately show ?case by (simp only: snd_run_Cons split: if_splits) simp
qed

lemma GetBitrate_encoder_from:
  assumes "encoder_from L h0 self"
  shows "\<exists>h'. encodes_to L h0 h' \<and> fst (GetBitrate L self args) = Return (Int32 (opus_get_bitrate L h'))"
proof -
  from assms obtain h where h: "encoder self = Some h" and r: "encodes_to L h0 h"
    by (auto simp add: encoder_from_def split: option.splits)
  from h have "snd (EnsureEncoder L self) = self" by (simp add: EnsureEncoder_present)
  with h have "fst (GetBitrate L self args) = Return (Int32 (opus_get_bitrate L h))"
    by (simp add: GetBitrate_def Let_def)
  with r show ?thesis by blast
qed

lemma SetBitrate_available:
  assumes "encoder (snd (EnsureEncoder L self)) = Some h"
  shows "SetBitrate L self (Int32 b # rest) =
           (Return Undefined, self\<lparr>encoder := Some (snd (opus_set_bitrate L h b))\<rparr>)"
  using assms EnsureEncoder_available [OF assms]
  by (simp add: SetBitrate_def REQ_INT_ARG_def Let_def)

lemma run_snoc:
  "run L self (cs @ [c]) =
     (case run L self cs of
        (rs, self') \<Rightarrow>
          if \<exists>r\<in>set rs. is_fault r then (rs, self')
          else (rs @ [fst (invoke L self' c)], snd (invoke L self' c)))"
proof (induction cs arbitrary: self)
  case Nil
  show ?case by (cases "invoke L self c") simp
next
  case (Cons d cs)
  obtain r s1 where d: "invoke L self d = (r, s1)" by (cases "invoke L self d")
  obtain rs s2 where cs: "run L s1 cs = (rs, s2)" by (cases "run L s1 cs")
  show ?case
    using Cons.IH [of s1] d cs by (simp split: prod.splits)
qed

lemma set_get_run:
  assumes avail: "encoder (snd (EnsureEncoder L self)) = Some h"
  shows "fst (run L self [setBitrate [Int32 b], getBitrate []]) =
           [Return Undefined, Return (Int32 (opus_get_bitrate L (snd (opus_set_bitrate L h b))))]"
  by (simp add: SetBitrate_available [OF avail] GetBitrate_def Let_def EnsureEncoder_def)

lemma set_calls_get_run:
  assumes avail: "encoder (snd (EnsureEncoder L self)) = Some h"
    and others: "\<forall>c\<in>set cs. \<not> is_setBitrate c"
    and nofault: "\<forall>r\<in>set (fst (run L self (setBitrate [Int32 b] # cs @ [getBitrate []]))). \<not> is_fault r"
  shows "\<exists>h'. encodes_to L (snd (opus_set_bitrate L h b)) h' \<and>
          last (fst (run L self (setBitrate [Int32 b] # cs @ [getBitrate []]))) =
            Return (Int32 (opus_get_bitrate L h'))"
proof -
  let ?h0 = "snd (opus_set_bitrate L h b)"
  let ?s1 = "self\<lparr>encoder := Some ?h0\<rparr>"
  have set: "SetBitrate L self [Int32 b] = (Return Undefined, ?s1)"
    using avail by (rule SetBitrate_available)
  obtain rs s2 where cs: "run L ?s1 cs = (rs, s2)" by (cases "run L ?s1 cs")
  have whole: "fst (run L self (setBitrate [Int32 b] # cs @ [getBitrate []])) =
      Return Undefined # fst (run L ?s1 (cs @ [getBitrate []]))"
    by (simp add: set split: prod.splits)
  have tail: "run L ?s1 (cs @ [getBitrate []]) =
      (if \<exists>r\<in>set rs. is_fault r then (rs, s2)
       else (rs @ [fst (GetBitrate L s2 [])], snd (GetBitrate L s2 [])))"
    by (simp add: run_snoc cs)
  have nf: "\<not> (\<exists>r\<in>set rs. is_fault r)"
  proof
    assume f: "\<exists>r\<in>set rs. is_fault r"
    with tail have "fst (run L ?s1 (cs @ [getBitrate []])) = rs" by simp
    with whole nofault f show False by auto
  qed
  with tail whole have l: "last (fst (run L self (setBitrate [Int32 b] # cs @ [getBitrate []]))) =
      fst (GetBitrate L s2 [])"
    by simp
  have "encoder_from L ?h0 ?s1" by (simp add: encoder_from_def encodes_to.here)
  with others have "encoder_from L ?h0 (snd (run L ?s1 cs))" by (intro encoder_from_run)
  with cs have "encoder_from L ?h0 s2" by simp
  from GetBitrate_encoder_from [OF this, of "[]"] l show ?thesis by auto
qed

section \<open>Evaluation on concrete inputs\<close>

lemmas model_defs = Encode_def Decode_def SetBitrate_def GetBitrate_def EnsureEncoder_def
  EnsureDecoder_def REQ_OBJ_ARG_def REQ_INT_ARG_def OPT_INT_ARG_def write_buf_def
  NanNewBufferHandle_def to_int32_def to_size_t_def to_uint32_def int32_ok_def
  MAX_PACKET_SIZE_def MAX_FRAME_SIZE_def Let_def

lemmas stub_defs = stub_opus_def fresh_def stub_encoder_create_def stub_decoder_create_def
  stub_rate_ok_def stub_frame_ok_def opus_consts

lemma New_fresh:
  "0 \<le> c \<Longrightarrow> c < 1000 \<Longrightarrow> New True [Int32 r, Int32 c, Int32 a] = Return (fresh r c a)"
  by (simp add: New_def OPT_INT_ARG_def OpusEncoder_ctor_def fresh_def int32_ok_def
      MAX_FRAME_SIZE_def)

lemma session_ok_fresh: "0 \<le> c \<Longrightarrow> c < 1000 \<Longrightarrow> session_ok (fresh r c a)"
  by (simp add: session_ok_def fresh_def int32_ok_def MAX_FRAME_SIZE_def MAX_PACKET_SIZE_def)

lemma stub_encode_keeps_bitrate:
  "stub_get_bitrate (snd (snd (stub_encode p h pcm fs m))) = stub_get_bitrate h"
  by (cases h) simp

lemma stub_encodes_to_bitrate:
  "encodes_to (stub_opus p) h h' \<Longrightarrow> stub_get_bitrate h' = stub_get_bitrate h"
  by (induction rule: encodes_to.induct) (simp_all add: stub_opus_def stub_encode_keeps_bitrate)

section \<open>Encode: a negative status of the native encoder\<close>

text \<open>
  C1. The specification says that when the frame length is not a size the codec accepts,
  the negative status that the native encode primitive returns reaches the caller as an
  error carrying that code, and is not returned as data. \<^verbatim>\<open>Encode\<close> has no test of \<^verbatim>\<open>compressedLength\<close>, where
  \<^verbatim>\<open>Decode\<close> tests \<^verbatim>\<open>decodedSamples < 0\<close> and throws. On a mono session at 48 kHz a buffer of
  two bytes is a frame of one sample: the native encoder rejects it with \<^verbatim>\<open>OPUS_BAD_ARG\<close>,
  and \<^verbatim>\<open>Encode\<close> hands \<open>- 1\<close> to \<^verbatim>\<open>NanNewBufferHandle\<close> as the length of the result, which
  reads far beyond \<^verbatim>\<open>outOpus\<close>. Nothing is thrown.
\<close>

theorem Encode_negative_status_not_thrown:
  "opus_encode (stub_opus 100) (StubEnc 48000 1 51000) (pcm_of_bytes [0, 0]) 1 MAX_PACKET_SIZE =
     (OPUS_BAD_ARG, [], StubEnc 48000 1 51000) \<and>
   Encode (stub_opus 100) (fresh 48000 1 OPUS_APPLICATION_AUDIO) [Buffer [0, 0]] =
     (Abort OutOfBounds,
      (fresh 48000 1 OPUS_APPLICATION_AUDIO)\<lparr>encoder := Some (StubEnc 48000 1 51000)\<rparr>)"
  by (simp add: model_defs stub_defs)

section \<open>Encode: a failed creation of the encoder\<close>

text \<open>
  C2. The specification says that on a session without encoder handle, when the native
  creation of the encoder fails, encode fails with an initialisation error. \<^verbatim>\<open>EnsureEncoder\<close> returns the
  error code of \<^verbatim>\<open>opus_encoder_create\<close>, but \<^verbatim>\<open>Encode\<close> drops the returned value and goes on
  to call \<^verbatim>\<open>opus_encode\<close> with the \<^verbatim>\<open>NULL\<close> handle. A session at 44100 Hz, a rate the
  library does not support, shows it: the error code is \<^verbatim>\<open>OPUS_BAD_ARG\<close>, nothing is thrown,
  and the call ends in the native primitive on a \<^verbatim>\<open>NULL\<close> handle.
\<close>

theorem Encode_creation_failure_ignored:
  "EnsureEncoder (stub_opus 100) (fresh 44100 1 OPUS_APPLICATION_AUDIO) =
     (OPUS_BAD_ARG, fresh 44100 1 OPUS_APPLICATION_AUDIO) \<and>
   Encode (stub_opus 100) (fresh 44100 1 OPUS_APPLICATION_AUDIO) [Buffer (replicate 1764 0)] =
     (Abort NullHandle, fresh 44100 1 OPUS_APPLICATION_AUDIO)"
  by (simp add: model_defs stub_defs)

section \<open>Decode: a negative status of the native decoder\<close>

text \<open>
  C3. Whenever the native decode primitive returns a negative status \<open>n\<close>, decode throws
  an error whose message is \<open>getDecodeError n\<close>: the table gives each of the seven status
  codes of the library (bad argument, buffer too small, internal error, corrupted packet,
  unsupported request, invalid state, allocation failure) a message of its own, and every
  other code the message for an unknown error. The native primitive is reached when the
  first argument is a buffer and the session has a decoder handle, its own or the one just
  created; what the primitive wrote lies within \<^verbatim>\<open>outPcm\<close>.
\<close>

theorem Decode_negative_status_message:
  assumes "REQ_OBJ_ARG 0 args = Inr data"
    and "decoder (snd (EnsureDecoder L self)) = Some d"
    and "opus_decode L d data (to_int32 (int (length data))) MAX_FRAME_SIZE 0 = (n, written, d')"
    and "length written \<le> length (outPcm self)"
    and "n < 0"
  shows "fst (Decode L self args) = Throw (TypeError (getDecodeError n)) \<and>
         getDecodeError OPUS_BAD_ARG = ''One or more invalid/out of range arguments'' \<and>
         getDecodeError OPUS_BUFFER_TOO_SMALL = ''The mode struct passed is invalid'' \<and>
         getDecodeError OPUS_INTERNAL_ERROR = ''An internal error was detected'' \<and>
         getDecodeError OPUS_INVALID_PACKET = ''The compressed data passed is corrupted'' \<and>
         getDecodeError OPUS_UNIMPLEMENTED = ''Invalid/unsupported request number.'' \<and>
         getDecodeError OPUS_INVALID_STATE =
           ''An encoder or decoder structure is invalid or already freed.'' \<and>
         getDecodeError OPUS_ALLOC_FAIL = ''Memory allocation has failed'' \<and>
         (\<forall>k. k < OPUS_ALLOC_FAIL \<or> OPUS_BAD_ARG < k \<longrightarrow>
              getDecodeError k = ''Unknown OPUS error'')"
proof -
  have thrown: "fst (Decode L self args) = Throw (TypeError (getDecodeError n))"
    using assms by (rule Decode_negative)
  have table:
    "getDecodeError OPUS_BAD_ARG = ''One or more invalid/out of range arguments''"
    "getDecodeError OPUS_BUFFER_TOO_SMALL = ''The mode struct passed is invalid''"
    "getDecodeError OPUS_INTERNAL_ERROR = ''An internal error was detected''"
    "getDecodeError OPUS_INVALID_PACKET = ''The compressed data passed is corrupted''"
    "getDecodeError OPUS_UNIMPLEMENTED = ''Invalid/unsupported request number.''"
    "getDecodeError OPUS_INVALID_STATE =
       ''An encoder or decoder structure is invalid or already freed.''"
    "getDecodeError OPUS_ALLOC_FAIL = ''Memory allocation has failed''"
    by (simp_all add: getDecodeError_def opus_consts)
  have other: "getDecodeError k = ''Unknown OPUS error''"
    if "k < OPUS_ALLOC_FAIL \<or> OPUS_BAD_ARG < k" for k
    using that by (auto simp add: getDecodeError_def opus_consts)
  from thrown table other show ?thesis by blast
qed

text \<open>
  On a mono session at 48 kHz the stand-in library rejects the packet \<open>[255]\<close> with
  \<^verbatim>\<open>OPUS_INVALID_PACKET\<close>, and decode throws the message of that code.
\<close>

theorem Decode_negative_status_message_witness:
  "fst (Decode (stub_opus 100) (fresh 48000 1 OPUS_APPLICATION_AUDIO) [Buffer [255]]) =
     Throw (TypeError ''The compressed data passed is corrupted'')"
proof -
  have "fst (Decode (stub_opus 100) (fresh 48000 1 OPUS_APPLICATION_AUDIO) [Buffer [255]]) =
          Throw (TypeError (getDecodeError OPUS_INVALID_PACKET)) \<and>
        getDecodeError OPUS_INVALID_PACKET = ''The compressed data passed is corrupted''"
    using Decode_negative_status_message
      [of "[Buffer [255]]" "[255]" "stub_opus 100" "fresh 48000 1 OPUS_APPLICATION_AUDIO"
          "StubDec 48000 1" OPUS_INVALID_PACKET "[]" "StubDec 48000 1"]
    by (simp add: model_defs stub_defs)
  then show ?thesis by simp
qed

section \<open>Decode: the result of a successful call\<close>

text \<open>
  C4. On a session as the constructor builds it, a call to decode that returns a value has
  called the native decode primitive with the frame capacity \<^verbatim>\<open>MAX_FRAME_SIZE\<close> and with
  forward error correction disabled (\<^verbatim>\<open>decode_fec = 0\<close>), has got a sample count \<open>n \<ge> 0\<close>
  from it, and returns a buffer of exactly \<open>n * 2 * channels\<close> bytes. Conversely, when the
  primitive returns a count between 0 and the capacity it was given, decode does return
  such a buffer. The outcome of decode depends on the native decoder only through calls
  with \<^verbatim>\<open>decode_fec = 0\<close>: replacing the decoder by any other that agrees with it on those
  calls changes nothing.
\<close>

theorem Decode_success_length:
  assumes ok: "session_ok self"
  shows "(\<forall>v self'. Decode L self args = (Return v, self') \<longrightarrow>
            (\<exists>data d n written d' b.
               REQ_OBJ_ARG 0 args = Inr data \<and>
               decoder (snd (EnsureDecoder L self)) = Some d \<and>
               opus_decode L d data (to_int32 (int (length data))) MAX_FRAME_SIZE 0 =
                 (n, written, d') \<and>
               0 \<le> n \<and> v = Buffer b \<and> int (length b) = n * 2 * channels self)) \<and>
         (\<forall>data d n written d'.
            REQ_OBJ_ARG 0 args = Inr data \<and>
            decoder (snd (EnsureDecoder L self)) = Some d \<and>
            opus_decode L d data (to_int32 (int (length data))) MAX_FRAME_SIZE 0 =
              (n, written, d') \<and>
            length written \<le> length (outPcm self) \<and>
            0 \<le> n \<and> n \<le> MAX_FRAME_SIZE \<and> int32_ok (n * 2 * channels self) \<longrightarrow>
            (\<exists>b. fst (Decode L self args) = Return (Buffer b) \<and>
                 int (length b) = n * 2 * channels self)) \<and>
         (\<forall>g. (\<forall>d data len. g d data len MAX_FRAME_SIZE 0 =
                               opus_decode L d data len MAX_FRAME_SIZE 0) \<longrightarrow>
              Decode (L\<lparr>opus_decode := g\<rparr>) self args = Decode L self args)"
proof (intro conjI allI impI)
  fix v self'
  assume "Decode L self args = (Return v, self')"
  with ok show "\<exists>data d n written d' b.
      REQ_OBJ_ARG 0 args = Inr data \<and>
      decoder (snd (EnsureDecoder L self)) = Some d \<and>
      opus_decode L d data (to_int32 (int (length data))) MAX_FRAME_SIZE 0 = (n, written, d') \<and>
      0 \<le> n \<and> v = Buffer b \<and> int (length b) = n * 2 * channels self"
    by (rule Decode_Return_D)
next
  fix data d n written d'
  assume "REQ_OBJ_ARG 0 args = Inr data \<and>
      decoder (snd (EnsureDecoder L self)) = Some d \<and>
      opus_decode L d data (to_int32 (int (length data))) MAX_FRAME_SIZE 0 = (n, written, d') \<and>
      length written \<le> length (outPcm self) \<and>
      0 \<le> n \<and> n \<le> MAX_FRAME_SIZE \<and> int32_ok (n * 2 * channels self)"
  with ok show "\<exists>b. fst (Decode L self args) = Return (Buffer b) \<and>
      int (length b) = n * 2 * channels self"
    by (blast intro: Decode_returns)
next
  fix g
  assume "\<forall>d data len. g d data len MAX_FRAME_SIZE (0::int) =
                        opus_decode L d data len MAX_FRAME_SIZE 0"
  then show "Decode (L\<lparr>opus_decode := g\<rparr>) self args = Decode L self args"
    by (intro Decode_fec_only) simp
qed

text \<open>
  On a stereo session at 48 kHz the stand-in library decodes the packet \<open>[0]\<close> to 960
  samples per channel, and decode returns \<open>960 * 2 * 2\<close> bytes.
\<close>

theorem Decode_success_length_witness:
  "session_ok (fresh 48000 2 OPUS_APPLICATION_AUDIO) \<and>
   (\<exists>b. fst (Decode (stub_opus 100) (fresh 48000 2 OPUS_APPLICATION_AUDIO) [Buffer [0]]) =
           Return (Buffer b) \<and> int (length b) = 960 * 2 * 2)"
proof -
  have ok: "session_ok (fresh 48000 2 OPUS_APPLICATION_AUDIO)"
    by (simp add: session_ok_fresh)
  have "\<exists>b. fst (Decode (stub_opus 100) (fresh 48000 2 OPUS_APPLICATION_AUDIO) [Buffer [0]]) =
               Return (Buffer b) \<and>
             int (length b) = 960 * 2 * channels (fresh 48000 2 OPUS_APPLICATION_AUDIO)"
    using Decode_success_length [OF ok, of "stub_opus 100" "[Buffer [0]]",
        THEN conjunct2, THEN conjunct1, rule_format,
        of "[0]" "StubDec 48000 2" 960 "replicate 1920 0" "StubDec 48000 2"]
    by (simp add: model_defs stub_defs)
  with ok show ?thesis by (simp add: fresh_def)
qed

section \<open>Encode: the default of maxPacketSize\<close>

text \<open>
  C6. The specification says that without a second argument the maximum output size
  defaults to 3276 bytes. The default in the code is \<^verbatim>\<open>MAX_PACKET_SIZE\<close>, which is \<open>3 * 1276 = 3828\<close>: a call to encode
  without second argument is the call with the second argument 3828.
\<close>

theorem Encode_default_maxPacketSize:
  "MAX_PACKET_SIZE = 3828 \<and>
   Encode L self [Buffer pcm] = Encode L self [Buffer pcm, Int32 3828]"
  by (simp add: Encode_def OPT_INT_ARG_def REQ_OBJ_ARG_def MAX_PACKET_SIZE_def)

text \<open>
  With a native encoder whose packets have 3500 bytes when the capacity allows it, encode
  without second argument returns 3500 bytes for a frame of 60 ms, more than 3276; with the
  second argument 3276 it returns 3276 bytes.
\<close>

theorem Encode_default_not_3276:
  "fst (Encode (stub_opus 3500) (fresh 48000 1 OPUS_APPLICATION_AUDIO)
          [Buffer (replicate 5760 0)]) = Return (Buffer (replicate 3500 1)) \<and>
   fst (Encode (stub_opus 3500) (fresh 48000 1 OPUS_APPLICATION_AUDIO)
          [Buffer (replicate 5760 0), Int32 3276]) = Return (Buffer (replicate 3276 1))"
  by (simp add: model_defs stub_defs)

section \<open>New: the defaults of the configuration\<close>


section \<open>Encode: the result for a frame the native encoder accepts\<close>

text \<open>
  C5. The specification says that for every PCM input whose length is an exact multiple of
  \<open>channels * 2\<close> bytes, encode returns a byte sequence that is non-empty, no longer than
  \<^verbatim>\<open>maxPacketSize\<close>, and of exactly the length the native encoder reports. The code returns the
  first \<open>n\<close> bytes of \<^verbatim>\<open>outOpus\<close>, where \<open>n\<close> is what \<^verbatim>\<open>opus_encode\<close> returned; so this
  holds for the inputs the native encoder accepts: on a session as the constructor builds it,
  with an encoder handle and a channel count other than zero, when the native encoder
  returns \<open>n\<close> with \<open>0 < n \<le> maxPacketSize\<close> and \<open>n \<le> 3828\<close>, having written within
  \<^verbatim>\<open>outOpus\<close>, encode returns exactly \<open>n\<close> bytes.
\<close>

theorem Encode_accepted_frame_length:
  assumes ok: "session_ok self"
    and a: "REQ_OBJ_ARG 0 args = Inr pcm"
    and m: "OPT_INT_ARG 1 MAX_PACKET_SIZE args = Inr maxPacketSize"
    and c: "channels self \<noteq> 0"
    and h: "encoder (snd (EnsureEncoder L self)) = Some h"
    and nat: "opus_encode L h (pcm_of_bytes pcm)
           (to_int32 (int (length pcm div 2 div to_size_t (channels self)))) maxPacketSize =
         (n, written, h')"
    and fits: "length written \<le> nat MAX_PACKET_SIZE"
    and n0: "0 < n" and n1: "n \<le> maxPacketSize" and n2: "n \<le> MAX_PACKET_SIZE"
  shows "\<exists>b. fst (Encode L self args) = Return (Buffer b) \<and> int (length b) = n \<and>
             b \<noteq> [] \<and> int (length b) \<le> maxPacketSize"
proof -
  let ?out = "written @ drop (length written) (outOpus self)"
  from ok have len: "length (outOpus self) = nat MAX_PACKET_SIZE"
    by (simp add: session_ok_def)
  from ok c have cz: "to_size_t (channels self) \<noteq> 0"
    by (simp add: to_size_t_channels session_ok_def)
  from fits len have w: "write_buf (outOpus self) written = Some ?out"
    by (simp add: write_buf_def)
  have lo: "length ?out = nat MAX_PACKET_SIZE" using fits len by simp
  have u: "to_uint32 n = nat n"
    using n0 n2 by (intro to_uint32_nonneg) (simp_all add: MAX_PACKET_SIZE_def)
  define b where "b = take (nat n) ?out"
  have nb: "NanNewBufferHandle ?out n = Inr b"
    using u lo n2 n0 by (simp add: NanNewBufferHandle_def nat_le_iff b_def)
  have r: "fst (Encode L self args) = Return (Buffer b)"
    using a m cz h nat w nb
    by (simp add: Encode_def Let_def EnsureEncoder_fields)
  have "length b = nat n"
    using NanNewBufferHandle_length [OF nb] u by simp
  with n0 have l: "int (length b) = n" by simp
  with n0 have "b \<noteq> []" by auto
  with r l n1 show ?thesis by simp
qed

text \<open>
  On a mono session at 48 kHz, a frame of 960 samples and a native encoder with packets of
  100 bytes give a result of 100 bytes.
\<close>

theorem Encode_accepted_frame_length_witness:
  "\<exists>b. fst (Encode (stub_opus 100) (fresh 48000 1 OPUS_APPLICATION_AUDIO)
              [Buffer (replicate 1920 0), Int32 1000]) = Return (Buffer b) \<and>
       int (length b) = 100 \<and> b \<noteq> [] \<and> int (length b) \<le> 1000"
proof -
  have ok: "session_ok (fresh 48000 1 OPUS_APPLICATION_AUDIO)"
    by (simp add: session_ok_fresh)
  show ?thesis
    by (rule Encode_accepted_frame_length
          [OF ok, where pcm = "replicate 1920 0" and h = "StubEnc 48000 1 51000"
             and written = "replicate 100 1" and h' = "StubEnc 48000 1 51000"])
       (simp_all add: model_defs stub_defs)
qed

text \<open>
  The length being a multiple of \<open>channels * 2\<close> is not enough. On a stereo session at
  48 kHz a buffer of four bytes is one sample per channel, which no Opus encoder accepts as
  a frame: no byte sequence is returned.
\<close>

theorem Encode_multiple_of_frame_counterexample:
  "int (length [0, 0, 0, 0 :: byte]) mod (channels (fresh 48000 2 OPUS_APPLICATION_AUDIO) * 2) = 0 \<and>
   fst (Encode (stub_opus 100) (fresh 48000 2 OPUS_APPLICATION_AUDIO)
          [Buffer [0, 0, 0, 0], Int32 3828]) = Abort OutOfBounds"
  by (simp add: model_defs stub_defs)

section \<open>Encode: maxPacketSize and the output buffer\<close>

text \<open>
  C10. \<^verbatim>\<open>outOpus\<close> has \<^verbatim>\<open>MAX_PACKET_SIZE\<close> = 3828 bytes, and encode passes the caller's
  \<^verbatim>\<open>maxPacketSize\<close> to the native encode primitive as the capacity of that array without
  clamping or checking it. No integer value of \<^verbatim>\<open>maxPacketSize\<close> makes encode throw, and
  the outcome depends on the native encoder only through calls whose capacity is that very
  value. On a session as the constructor builds it, with an encoder handle and a channel
  count other than zero, the outcome is what the native primitive does when called with
  the capacity \<^verbatim>\<open>maxPacketSize\<close>: when it returns a length \<open>n\<close> within the array, having
  written within the array, encode returns the first \<open>n\<close> bytes of the array and keeps the
  encoder state the primitive left; when it writes more than 3828 bytes, the write leaves
  \<^verbatim>\<open>outOpus\<close>. Nothing guards the larger values: with a native encoder that uses the whole
  capacity it is given, every \<^verbatim>\<open>maxPacketSize\<close> above 3828 ends in the out-of-bounds write,
  and every \<^verbatim>\<open>maxPacketSize\<close> from 0 to 3828 returns that many bytes.
\<close>

theorem Encode_maxPacketSize_unclamped:
  "MAX_PACKET_SIZE = 3828 \<and>
   (\<forall>e. fst (Encode L self (Buffer pcm # Int32 maxPacketSize # rest)) \<noteq> Throw e) \<and>
   (\<forall>g. (\<forall>h pcm fs. g h pcm fs maxPacketSize = opus_encode L h pcm fs maxPacketSize) \<longrightarrow>
        Encode (L\<lparr>opus_encode := g\<rparr>) self (Buffer pcm # Int32 maxPacketSize # rest) =
        Encode L self (Buffer pcm # Int32 maxPacketSize # rest)) \<and>
   (session_ok self \<and> channels self \<noteq> 0 \<and> encoder (snd (EnsureEncoder L self)) = Some h \<longrightarrow>
      length (outOpus self) = 3828 \<and>
      (\<forall>n written h'.
         opus_encode L h (pcm_of_bytes pcm)
           (to_int32 (int (length pcm div 2 div to_size_t (channels self)))) maxPacketSize =
           (n, written, h') \<longrightarrow>
         (length written \<le> 3828 \<and> 0 \<le> n \<and> n \<le> 3828 \<longrightarrow>
            Encode L self (Buffer pcm # Int32 maxPacketSize # rest) =
              (Return (Buffer (take (nat n) (written @ drop (length written) (outOpus self)))),
               self\<lparr>encoder := Some h',
                    outOpus := written @ drop (length written) (outOpus self)\<rparr>)) \<and>
         (3828 < length written \<longrightarrow>
            fst (Encode L self (Buffer pcm # Int32 maxPacketSize # rest)) = Abort OutOfBounds)) \<and>
      (3828 < maxPacketSize \<longrightarrow>
         fst (Encode (L\<lparr>opus_encode := fill_encode\<rparr>) self
                (Buffer pcm # Int32 maxPacketSize # rest)) = Abort OutOfBounds) \<and>
      (0 \<le> maxPacketSize \<and> maxPacketSize \<le> 3828 \<longrightarrow>
         fst (Encode (L\<lparr>opus_encode := fill_encode\<rparr>) self
                (Buffer pcm # Int32 maxPacketSize # rest)) =
           Return (Buffer (replicate (nat maxPacketSize) 0))))"
proof (intro conjI allI impI)
  show "MAX_PACKET_SIZE = 3828" by (simp add: MAX_PACKET_SIZE_def)
next
  fix e
  show "fst (Encode L self (Buffer pcm # Int32 maxPacketSize # rest)) \<noteq> Throw e"
    by (rule Encode_no_throw)
next
  fix g
  assume "\<forall>h pcm fs. g h pcm fs maxPacketSize = opus_encode L h pcm fs maxPacketSize"
  then show "Encode (L\<lparr>opus_encode := g\<rparr>) self (Buffer pcm # Int32 maxPacketSize # rest) =
             Encode L self (Buffer pcm # Int32 maxPacketSize # rest)"
    by (intro Encode_capacity_only) simp
next
  assume "session_ok self \<and> channels self \<noteq> 0 \<and> encoder (snd (EnsureEncoder L self)) = Some h"
  then show "length (outOpus self) = 3828"
    by (simp add: session_ok_def MAX_PACKET_SIZE_def)
next
  fix n written h'
  assume s: "session_ok self \<and> channels self \<noteq> 0 \<and>
      encoder (snd (EnsureEncoder L self)) = Some h"
    and r: "opus_encode L h (pcm_of_bytes pcm)
        (to_int32 (int (length pcm div 2 div to_size_t (channels self)))) maxPacketSize =
        (n, written, h')"
    and b: "length written \<le> 3828 \<and> 0 \<le> n \<and> n \<le> 3828"
  from s r b show "Encode L self (Buffer pcm # Int32 maxPacketSize # rest) =
      (Return (Buffer (take (nat n) (written @ drop (length written) (outOpus self)))),
       self\<lparr>encoder := Some h', outOpus := written @ drop (length written) (outOpus self)\<rparr>)"
    by (intro Encode_within) (simp_all add: MAX_PACKET_SIZE_def)
next
  fix n written h'
  assume s: "session_ok self \<and> channels self \<noteq> 0 \<and>
      encoder (snd (EnsureEncoder L self)) = Some h"
    and r: "opus_encode L h (pcm_of_bytes pcm)
        (to_int32 (int (length pcm div 2 div to_size_t (channels self)))) maxPacketSize =
        (n, written, h')"
    and b: "3828 < length written"
  from s r b show "fst (Encode L self (Buffer pcm # Int32 maxPacketSize # rest)) = Abort OutOfBounds"
    by (intro Encode_overrun [where h = h and n = n and written = written and h' = h'])
       (simp_all add: MAX_PACKET_SIZE_def)
next
  assume s: "session_ok self \<and> channels self \<noteq> 0 \<and>
      encoder (snd (EnsureEncoder L self)) = Some h"
    and m: "3828 < maxPacketSize"
  from s m show "fst (Encode (L\<lparr>opus_encode := fill_encode\<rparr>) self
      (Buffer pcm # Int32 maxPacketSize # rest)) = Abort OutOfBounds"
    by (intro Encode_fill_over [where h = h]) (simp_all add: MAX_PACKET_SIZE_def)
next
  assume s: "session_ok self \<and> channels self \<noteq> 0 \<and>
      encoder (snd (EnsureEncoder L self)) = Some h"
    and m: "0 \<le> maxPacketSize \<and> maxPacketSize \<le> 3828"
  from s m show "fst (Encode (L\<lparr>opus_encode := fill_encode\<rparr>) self
      (Buffer pcm # Int32 maxPacketSize # rest)) = Return (Buffer (replicate (nat maxPacketSize) 0))"
    by (intro Encode_fill_within [where h = h]) (simp_all add: MAX_PACKET_SIZE_def)
qed

text \<open>
  On a mono session at 48 kHz, with \<^verbatim>\<open>maxPacketSize\<close> = 4000 and a frame of 960 samples: a
  native encoder with packets of 4000 bytes writes out of bounds, and one with packets of
  100 bytes gives a result of 100 bytes. With the native encoder that uses its whole
  capacity, \<^verbatim>\<open>maxPacketSize\<close> = 3829 writes out of bounds and \<^verbatim>\<open>maxPacketSize\<close> = 3828 returns
  3828 bytes.
\<close>

theorem Encode_maxPacketSize_unclamped_witness:
  "fst (Encode (stub_opus 4000) (fresh 48000 1 OPUS_APPLICATION_AUDIO)
          [Buffer (replicate 1920 0), Int32 4000]) = Abort OutOfBounds \<and>
   fst (Encode (stub_opus 100) (fresh 48000 1 OPUS_APPLICATION_AUDIO)
          [Buffer (replicate 1920 0), Int32 4000]) = Return (Buffer (replicate 100 1)) \<and>
   fst (Encode ((stub_opus 100)\<lparr>opus_encode := fill_encode\<rparr>)
          (fresh 48000 1 OPUS_APPLICATION_AUDIO)
          [Buffer (replicate 1920 0), Int32 3829]) = Abort OutOfBounds \<and>
   fst (Encode ((stub_opus 100)\<lparr>opus_encode := fill_encode\<rparr>)
          (fresh 48000 1 OPUS_APPLICATION_AUDIO)
          [Buffer (replicate 1920 0), Int32 3828]) = Return (Buffer (replicate 3828 0))"
proof -
  let ?s = "fresh 48000 1 OPUS_APPLICATION_AUDIO" and ?pcm = "replicate 1920 (0 :: byte)"
  have ok: "session_ok ?s \<and> channels ?s \<noteq> 0"
    by (simp add: session_ok_fresh) (simp add: fresh_def)
  have avail: "encoder (snd (EnsureEncoder (stub_opus p) ?s)) = Some (StubEnc 48000 1 51000)" for p
    by (simp add: model_defs stub_defs)
  have big: "opus_encode (stub_opus 4000) (StubEnc 48000 1 51000) (pcm_of_bytes ?pcm)
      (to_int32 (int (length ?pcm div 2 div to_size_t (channels ?s)))) 4000 =
      (4000, replicate 4000 1, StubEnc 48000 1 51000)"
    by (simp add: model_defs stub_defs)
  have small: "opus_encode (stub_opus 100) (StubEnc 48000 1 51000) (pcm_of_bytes ?pcm)
      (to_int32 (int (length ?pcm div 2 div to_size_t (channels ?s)))) 4000 =
      (100, replicate 100 1, StubEnc 48000 1 51000)"
    by (simp add: model_defs stub_defs)
  note t = Encode_maxPacketSize_unclamped
    [where self = ?s and pcm = ?pcm and rest = "[]" and h = "StubEnc 48000 1 51000"]
  from t [where L = "stub_opus 4000" and maxPacketSize = 4000] ok avail [of 4000] big
  have 1: "fst (Encode (stub_opus 4000) ?s [Buffer ?pcm, Int32 4000]) = Abort OutOfBounds"
    by (simp add: MAX_PACKET_SIZE_def)
  from t [where L = "stub_opus 100" and maxPacketSize = 4000] ok avail [of 100] small
  have 2: "fst (Encode (stub_opus 100) ?s [Buffer ?pcm, Int32 4000]) =
      Return (Buffer (replicate 100 1))"
    by (simp add: fresh_def MAX_PACKET_SIZE_def)
  from t [where L = "stub_opus 100" and maxPacketSize = 3829] ok avail [of 100]
  have 3: "fst (Encode ((stub_opus 100)\<lparr>opus_encode := fill_encode\<rparr>) ?s
      [Buffer ?pcm, Int32 3829]) = Abort OutOfBounds"
    by (simp add: MAX_PACKET_SIZE_def)
  from t [where L = "stub_opus 100" and maxPacketSize = 3828] ok avail [of 100]
  have 4: "fst (Encode ((stub_opus 100)\<lparr>opus_encode := fill_encode\<rparr>) ?s
      [Buffer ?pcm, Int32 3828]) = Return (Buffer (replicate 3828 0))"
    by (simp add: MAX_PACKET_SIZE_def)
  from 1 2 3 4 show ?thesis by simp
qed

section \<open>setBitrate and getBitrate\<close>

text \<open>
  C8. The specification says that on any session, \<^verbatim>\<open>setBitrate(64000)\<close> followed by
  \<^verbatim>\<open>getBitrate()\<close>, with no \<^verbatim>\<open>setBitrate\<close> between them, returns 64000. \<^verbatim>\<open>SetBitrate\<close> hands
  its argument to \<^verbatim>\<open>OPUS_SET_BITRATE\<close> on the session's encoder, and \<^verbatim>\<open>GetBitrate\<close> returns
  what \<^verbatim>\<open>OPUS_GET_BITRATE\<close> reads from the same encoder. So on a session that has an encoder
  handle, or whose encoder the native library can create:
  \<^item> \<^verbatim>\<open>setBitrate(b)\<close> returns undefined, and \<^verbatim>\<open>getBitrate()\<close> right after it returns the
    bitrate the native control interface reports on the encoder state that setting \<open>b\<close>
    left, for every native library;
  \<^item> that is 64000 for \<^verbatim>\<open>setBitrate(64000)\<close> when the native encoder reports 64000 after
    being set to 64000;
  \<^item> with calls other than \<^verbatim>\<open>setBitrate\<close> between the two, none of the calls ending in a
    fault, \<^verbatim>\<open>getBitrate()\<close> returns the bitrate the native library reports on an encoder
    state that encoding reaches from the state the set left; that is 64000 when the native
    library reports 64000 on every such state.
\<close>

theorem setBitrate_then_getBitrate:
  assumes avail: "encoder (snd (EnsureEncoder L self)) = Some h"
  shows "fst (run L self [setBitrate [Int32 b], getBitrate []]) =
           [Return Undefined,
            Return (Int32 (opus_get_bitrate L (snd (opus_set_bitrate L h b))))] \<and>
         (opus_get_bitrate L (snd (opus_set_bitrate L h 64000)) = 64000 \<longrightarrow>
            fst (run L self [setBitrate [Int32 64000], getBitrate []]) =
              [Return Undefined, Return (Int32 64000)]) \<and>
         ((\<forall>c\<in>set cs. \<not> is_setBitrate c) \<and>
          (\<forall>r\<in>set (fst (run L self (setBitrate [Int32 b] # cs @ [getBitrate []]))).
             \<not> is_fault r) \<longrightarrow>
            (\<exists>h'. encodes_to L (snd (opus_set_bitrate L h b)) h' \<and>
                  last (fst (run L self (setBitrate [Int32 b] # cs @ [getBitrate []]))) =
                    Return (Int32 (opus_get_bitrate L h')))) \<and>
         ((\<forall>h'. encodes_to L (snd (opus_set_bitrate L h 64000)) h' \<longrightarrow>
                opus_get_bitrate L h' = 64000) \<and>
          (\<forall>c\<in>set cs. \<not> is_setBitrate c) \<and>
          (\<forall>r\<in>set (fst (run L self (setBitrate [Int32 64000] # cs @ [getBitrate []]))).
             \<not> is_fault r) \<longrightarrow>
            last (fst (run L self (setBitrate [Int32 64000] # cs @ [getBitrate []]))) =
              Return (Int32 64000))"
proof (intro conjI impI)
  show direct: "fst (run L self [setBitrate [Int32 b], getBitrate []]) =
      [Return Undefined, Return (Int32 (opus_get_bitrate L (snd (opus_set_bitrate L h b))))]"
    for b
    using avail by (rule set_get_run)
  assume "opus_get_bitrate L (snd (opus_set_bitrate L h 64000)) = 64000"
  with direct [of 64000]
  show "fst (run L self [setBitrate [Int32 64000], getBitrate []]) =
      [Return Undefined, Return (Int32 64000)]"
    by simp
next
  assume "(\<forall>c\<in>set cs. \<not> is_setBitrate c) \<and>
     (\<forall>r\<in>set (fst (run L self (setBitrate [Int32 b] # cs @ [getBitrate []]))). \<not> is_fault r)"
  then show "\<exists>h'. encodes_to L (snd (opus_set_bitrate L h b)) h' \<and>
      last (fst (run L self (setBitrate [Int32 b] # cs @ [getBitrate []]))) =
        Return (Int32 (opus_get_bitrate L h'))"
    using avail by (intro set_calls_get_run) simp_all
next
  assume a: "(\<forall>h'. encodes_to L (snd (opus_set_bitrate L h 64000)) h' \<longrightarrow>
        opus_get_bitrate L h' = 64000) \<and>
     (\<forall>c\<in>set cs. \<not> is_setBitrate c) \<and>
     (\<forall>r\<in>set (fst (run L self (setBitrate [Int32 64000] # cs @ [getBitrate []]))).
        \<not> is_fault r)"
  then have "\<exists>h'. encodes_to L (snd (opus_set_bitrate L h 64000)) h' \<and>
      last (fst (run L self (setBitrate [Int32 64000] # cs @ [getBitrate []]))) =
        Return (Int32 (opus_get_bitrate L h'))"
    using avail by (intro set_calls_get_run) simp_all
  with a show "last (fst (run L self (setBitrate [Int32 64000] # cs @ [getBitrate []]))) =
      Return (Int32 64000)"
    by auto
qed

text \<open>
  On a mono session at 48 kHz: \<^verbatim>\<open>setBitrate(64000)\<close> and \<^verbatim>\<open>getBitrate()\<close> return undefined
  and 64000; and after \<^verbatim>\<open>setBitrate(64000)\<close>, an encode, a \<^verbatim>\<open>getBitrate\<close> and a decode, none
  of them ending in a fault, \<^verbatim>\<open>getBitrate()\<close> returns 64000.
\<close>

theorem setBitrate_then_getBitrate_witness:
  "fst (run (stub_opus 100) (fresh 48000 1 OPUS_APPLICATION_AUDIO)
          [setBitrate [Int32 64000], getBitrate []]) =
     [Return Undefined, Return (Int32 64000)] \<and>
   last (fst (run (stub_opus 100) (fresh 48000 1 OPUS_APPLICATION_AUDIO)
                (setBitrate [Int32 64000] #
                 [encode [Buffer (replicate 1920 0)], getBitrate [], decode [Buffer [0]]] @
                 [getBitrate []]))) = Return (Int32 64000)"
proof -
  let ?L = "stub_opus 100" and ?s = "fresh 48000 1 OPUS_APPLICATION_AUDIO"
  let ?cs = "[encode [Buffer (replicate 1920 0)], getBitrate [], decode [Buffer [0]]]"
  have avail: "encoder (snd (EnsureEncoder ?L ?s)) = Some (StubEnc 48000 1 51000)"
    by (simp add: model_defs stub_defs)
  note t = setBitrate_then_getBitrate [OF avail, where cs = ?cs]
  have stored: "opus_get_bitrate ?L (snd (opus_set_bitrate ?L (StubEnc 48000 1 51000) 64000)) =
      64000"
    by (simp add: stub_opus_def opus_consts)
  have reached: "\<forall>h'. encodes_to ?L (snd (opus_set_bitrate ?L (StubEnc 48000 1 51000) 64000)) h' \<longrightarrow>
      opus_get_bitrate ?L h' = 64000"
    using stub_encodes_to_bitrate [of 100 "StubEnc 48000 1 64000"]
    by (auto simp add: stub_opus_def opus_consts)
  have others: "\<forall>c\<in>set ?cs. \<not> is_setBitrate c"
    by simp
  have nofault: "\<forall>r\<in>set (fst (run ?L ?s (setBitrate [Int32 64000] # ?cs @ [getBitrate []]))).
      \<not> is_fault r"
    by (simp add: model_defs stub_defs length_bytes_of_pcm)
  from t stored have "fst (run ?L ?s [setBitrate [Int32 64000], getBitrate []]) =
      [Return Undefined, Return (Int32 64000)]"
    by blast
  moreover from t reached others nofault
  have "last (fst (run ?L ?s (setBitrate [Int32 64000] # ?cs @ [getBitrate []]))) =
      Return (Int32 64000)"
    by blast
  ultimately show ?thesis by simp
qed

text \<open>
  Not on any session: at 44100 Hz the native library creates no encoder, and both calls
  end in the native control primitive on a \<^verbatim>\<open>NULL\<close> handle; \<^verbatim>\<open>getBitrate()\<close> does not
  return 64000.
\<close>

theorem setBitrate_uncreatable_session:
  "fst (SetBitrate (stub_opus 100) (fresh 44100 1 OPUS_APPLICATION_AUDIO) [Int32 64000]) =
     Abort NullHandle \<and>
   fst (GetBitrate (stub_opus 100)
          (snd (SetBitrate (stub_opus 100) (fresh 44100 1 OPUS_APPLICATION_AUDIO) [Int32 64000]))
          []) = Abort NullHandle"
  by (simp add: model_defs stub_defs)

section \<open>The two handles\<close>

text \<open>
  C9. The specification says that the encoder handle is materialised on the first encode,
  setBitrate or getBitrate call, the decoder handle independently on the first decode call, and a handle
  once created is never reset. In the code a new session has neither handle; decode never
  touches the encoder handle, and encode, setBitrate and getBitrate never touch the decoder
  handle; on a session without encoder handle whose encoder the native library can create,
  every encode and getBitrate call and every setBitrate call with an integer argument
  leaves the session with an encoder handle, and likewise every decode call with a buffer
  argument leaves a creatable decoder created; and over every sequence of calls, whatever
  their outcomes, a handle that is present stays present.
\<close>

theorem handles_lazy_and_permanent:
  "(New isConstructCall args0 = Return self0 \<longrightarrow> encoder self0 = None \<and> decoder self0 = None) \<and>
   (\<forall>c. is_decode c \<longrightarrow> encoder (snd (invoke L self c)) = encoder self) \<and>
   (\<forall>c. \<not> is_decode c \<longrightarrow> decoder (snd (invoke L self c)) = decoder self) \<and>
   (encoder self = None \<and>
    fst (opus_encoder_create L (rate self) (channels self) (application self)) \<noteq> None \<longrightarrow>
      (\<forall>args. encoder (snd (Encode L self args)) \<noteq> None) \<and>
      (\<forall>args. encoder (snd (GetBitrate L self args)) \<noteq> None) \<and>
      (\<forall>b rest. encoder (snd (SetBitrate L self (Int32 b # rest))) \<noteq> None)) \<and>
   (decoder self = None \<and>
    fst (opus_decoder_create L (rate self) (channels self)) \<noteq> None \<longrightarrow>
      (\<forall>data rest. decoder (snd (Decode L self (Buffer data # rest))) \<noteq> None)) \<and>
   (\<forall>cs. encoder self \<noteq> None \<longrightarrow> encoder (snd (run L self cs)) \<noteq> None) \<and>
   (\<forall>cs. decoder self \<noteq> None \<longrightarrow> decoder (snd (run L self cs)) \<noteq> None)"
proof (intro conjI allI impI)
  assume "New isConstructCall args0 = Return self0"
  then show "encoder self0 = None" and "decoder self0 = None"
    by (simp_all add: New_handles_absent)
next
  fix c :: method_call
  assume "is_decode c"
  then show "encoder (snd (invoke L self c)) = encoder self"
    by (rule invoke_encoder_same)
next
  fix c :: method_call
  assume "\<not> is_decode c"
  then show "decoder (snd (invoke L self c)) = decoder self"
    by (rule invoke_decoder_same)
next
  fix args
  assume "encoder self = None \<and>
    fst (opus_encoder_create L (rate self) (channels self) (application self)) \<noteq> None"
  then obtain h where "encoder self = None"
    and "fst (opus_encoder_create L (rate self) (channels self) (application self)) = Some h"
    by auto
  then show "encoder (snd (Encode L self args)) \<noteq> None"
    by (rule Encode_materialises)
next
  fix args
  assume "encoder self = None \<and>
    fst (opus_encoder_create L (rate self) (channels self) (application self)) \<noteq> None"
  then obtain h where "encoder self = None"
    and "fst (opus_encoder_create L (rate self) (channels self) (application self)) = Some h"
    by auto
  then show "encoder (snd (GetBitrate L self args)) \<noteq> None"
    by (rule GetBitrate_materialises)
next
  fix b rest
  assume "encoder self = None \<and>
    fst (opus_encoder_create L (rate self) (channels self) (application self)) \<noteq> None"
  then obtain h where "encoder self = None"
    and "fst (opus_encoder_create L (rate self) (channels self) (application self)) = Some h"
    by auto
  then show "encoder (snd (SetBitrate L self (Int32 b # rest))) \<noteq> None"
    by (rule SetBitrate_materialises)
next
  fix data rest
  assume "decoder self = None \<and>
    fst (opus_decoder_create L (rate self) (channels self)) \<noteq> None"
  then obtain d where "decoder self = None"
    and "fst (opus_decoder_create L (rate self) (channels self)) = Some d"
    by auto
  then show "decoder (snd (Decode L self (Buffer data # rest))) \<noteq> None"
    by (rule Decode_materialises)
next
  fix cs
  assume "encoder self \<noteq> None"
  then show "encoder (snd (run L self cs)) \<noteq> None"
    by (rule run_encoder_mono)
next
  fix cs
  assume "decoder self \<noteq> None"
  then show "decoder (snd (run L self cs)) \<noteq> None"
    by (rule run_decoder_mono)
qed

text \<open>
  On a mono session at 48 kHz an encode call without arguments throws, and has created the
  encoder; a decode of a corrupted packet, another encode without arguments and a setBitrate
  without argument later, all three of them throwing, the encoder handle is still there.
\<close>

theorem handles_lazy_and_permanent_witness:
  "encoder (fresh 48000 1 OPUS_APPLICATION_AUDIO) = None \<and>
   encoder (snd (Encode (stub_opus 100) (fresh 48000 1 OPUS_APPLICATION_AUDIO) [])) \<noteq> None \<and>
   encoder (snd (run (stub_opus 100)
                   (snd (Encode (stub_opus 100) (fresh 48000 1 OPUS_APPLICATION_AUDIO) []))
                   [decode [Buffer [255]], encode [], setBitrate []])) \<noteq> None"
proof -
  let ?L = "stub_opus 100" and ?s = "fresh 48000 1 OPUS_APPLICATION_AUDIO"
  note t = handles_lazy_and_permanent [where L = ?L]
  have absent: "encoder ?s = None" by (simp add: fresh_def)
  have creatable: "fst (opus_encoder_create ?L (rate ?s) (channels ?s) (application ?s)) \<noteq> None"
    by (simp add: stub_defs)
  from absent creatable t [where self = ?s]
  have first: "encoder (snd (Encode ?L ?s [])) \<noteq> None"
    by blast
  with t [where self = "snd (Encode ?L ?s [])"]
  have "encoder (snd (run ?L (snd (Encode ?L ?s []))
                   [decode [Buffer [255]], encode [], setBitrate []])) \<noteq> None"
    by blast
  with absent first show ?thesis by simp
qed

text \<open>
  The first call does not always materialise the handle: \<^verbatim>\<open>SetBitrate\<close> checks its argument
  before \<^verbatim>\<open>EnsureEncoder\<close>, so a first setBitrate call without argument leaves the session
  without encoder; and at 44100 Hz the native creation fails, so the session has no encoder
  after its first encode call.
\<close>

theorem handles_counterexample:
  "encoder (snd (SetBitrate (stub_opus 100) (fresh 48000 1 OPUS_APPLICATION_AUDIO) [])) = None \<and>
   encoder (snd (Encode (stub_opus 100) (fresh 44100 1 OPUS_APPLICATION_AUDIO)
                   [Buffer (replicate 1764 0)])) = None"
  by (simp add: model_defs stub_defs)

end
